theory Spec2Isabelle
  imports Main "HOL-Library.AList"
begin

section \<open>Python values used by chessnote\<close>

text \<open>
  A Python \<open>str\<close> is a sequence of Unicode code points; the notation commands are
  Chinese text, so a string is a list of code points and not a byte string.
  Board positions are pairs of Python (unbounded) integers.
\<close>

type_synonym pystr = "nat list"
type_synonym pos = "int \<times> int"
type_synonym arrow = "pos \<times> pos"

text \<open>Exceptions: the class, and for \<open>ValueError\<close> the fixed part of its message.\<close>

datatype error = KeyError | ValueError string | IndexError | TypeError

definition ustr :: "string \<Rightarrow> pystr" where
  "ustr s = map of_char s"

text \<open>\<open>a in b\<close> on strings is the substring test.\<close>

fun str_in :: "pystr \<Rightarrow> pystr \<Rightarrow> bool" where
  "str_in xs [] = (xs = [])"
| "str_in xs (y # ys) = (take (length xs) (y # ys) = xs \<or> str_in xs ys)"

text \<open>
  \<open>str.isupper\<close> and \<open>str.islower\<close>: at least one cased character and no cased
  character of the other case. The board only ever holds strings that passed
  \<open>_check_piece\<close>, substrings of the ASCII string \<open>_VALID_PIECES\<close>, so the case
  tables are the ASCII ones.
\<close>

definition is_upper_cp :: "nat \<Rightarrow> bool" where
  "is_upper_cp c = (65 \<le> c \<and> c \<le> 90)"

definition is_lower_cp :: "nat \<Rightarrow> bool" where
  "is_lower_cp c = (97 \<le> c \<and> c \<le> 122)"

definition isupper :: "pystr \<Rightarrow> bool" where
  "isupper s = (list_ex is_upper_cp s \<and> \<not> list_ex is_lower_cp s)"

definition islower :: "pystr \<Rightarrow> bool" where
  "islower s = (list_ex is_lower_cp s \<and> \<not> list_ex is_upper_cp s)"

definition lower_cp :: "nat \<Rightarrow> nat" where
  "lower_cp c = (if is_upper_cp c then c + 32 else c)"

definition upper_cp :: "nat \<Rightarrow> nat" where
  "upper_cp c = (if is_lower_cp c then c - 32 else c)"

definition str_lower :: "pystr \<Rightarrow> pystr" where
  "str_lower s = map lower_cp s"

definition str_upper :: "pystr \<Rightarrow> pystr" where
  "str_upper s = map upper_cp s"


section \<open>ChessState\<close>

text \<open>
  \<open>ChessState._pieces\<close> is a \<open>dict\<close> from position to piece. A Python dict keeps
  insertion order, and \<open>ChessParser.parse_cmd\<close> depends on it, so the board is an
  association list: assignment to a present key overwrites in place, assignment to
  a new key appends, deletion removes the entry.
\<close>

type_synonym ChessState = "(pos \<times> pystr) list"

definition ROWS_NUM :: int where "ROWS_NUM = 10"
definition COLS_NUM :: int where "COLS_NUM = 9"

definition VALID_PIECES :: pystr where
  "VALID_PIECES = ustr ''RrHhEeAaCcPpKk''"

definition DEFAULT_STATE :: ChessState where
  "DEFAULT_STATE =
    [((0, 0), ustr ''R''), ((1, 0), ustr ''H''), ((2, 0), ustr ''E''), ((3, 0), ustr ''A''),
     ((4, 0), ustr ''K''), ((5, 0), ustr ''A''), ((6, 0), ustr ''E''), ((7, 0), ustr ''H''),
     ((8, 0), ustr ''R''), ((1, 2), ustr ''C''), ((7, 2), ustr ''C''), ((0, 3), ustr ''P''),
     ((2, 3), ustr ''P''), ((4, 3), ustr ''P''), ((6, 3), ustr ''P''), ((8, 3), ustr ''P''),
     ((0, 6), ustr ''p''), ((2, 6), ustr ''p''), ((4, 6), ustr ''p''), ((6, 6), ustr ''p''),
     ((8, 6), ustr ''p''), ((1, 7), ustr ''c''), ((7, 7), ustr ''c''), ((0, 9), ustr ''r''),
     ((1, 9), ustr ''h''), ((2, 9), ustr ''e''), ((3, 9), ustr ''a''), ((4, 9), ustr ''k''),
     ((5, 9), ustr ''a''), ((6, 9), ustr ''e''), ((7, 9), ustr ''h''), ((8, 9), ustr ''r'')]"

definition check_key :: "pos \<Rightarrow> error + unit" where
  "check_key key =
     (case key of (x, y) \<Rightarrow>
        if 0 \<le> x \<and> x < COLS_NUM \<and> 0 \<le> y \<and> y < ROWS_NUM then Inr () else Inl KeyError)"

definition check_piece :: "pystr \<Rightarrow> error + unit" where
  "check_piece piece =
     (if str_in piece VALID_PIECES then Inr () else Inl (ValueError ''Invalid piece''))"

definition getitem :: "ChessState \<Rightarrow> pos \<Rightarrow> error + pystr" where
  "getitem st key =
     (case check_key key of
        Inl e \<Rightarrow> Inl e
      | Inr _ \<Rightarrow> (case map_of st key of None \<Rightarrow> Inl KeyError | Some v \<Rightarrow> Inr v))"

definition setitem :: "ChessState \<Rightarrow> pos \<Rightarrow> pystr \<Rightarrow> error + ChessState" where
  "setitem st key v =
     (case check_key key of
        Inl e \<Rightarrow> Inl e
      | Inr _ \<Rightarrow> (case check_piece v of
                    Inl e \<Rightarrow> Inl e
                  | Inr _ \<Rightarrow> Inr (AList.update key v st)))"

definition delitem :: "ChessState \<Rightarrow> pos \<Rightarrow> error + ChessState" where
  "delitem st key =
     (case check_key key of
        Inl e \<Rightarrow> Inl e
      | Inr _ \<Rightarrow> (case map_of st key of
                    None \<Rightarrow> Inl KeyError
                  | Some _ \<Rightarrow> Inr (AList.delete key st)))"

text \<open>
  \<open>key in state\<close> is \<open>Mapping.__contains__\<close>: it tries \<open>state[key]\<close> and answers
  \<open>False\<close> on a \<open>KeyError\<close>, so a position off the board is never contained.
\<close>

definition contains :: "ChessState \<Rightarrow> pos \<Rightarrow> bool" where
  "contains st key = (case getitem st key of Inl _ \<Rightarrow> False | Inr _ \<Rightarrow> True)"

text \<open>
  \<open>ChessState.move\<close> mutates the board in place and may raise midway, so the model
  returns the exception (if any) together with the board as it is left.
\<close>

definition move :: "ChessState \<Rightarrow> pos \<Rightarrow> pos \<Rightarrow> error option \<times> ChessState" where
  "move st start end =
     (if map_of st start = None then (Some (ValueError ''No piece at start''), st)
      else (case getitem st start of
              Inl e \<Rightarrow> (Some e, st)
            | Inr v \<Rightarrow> (case setitem st end v of
                          Inl e \<Rightarrow> (Some e, st)
                        | Inr st1 \<Rightarrow> (case delitem st1 start of
                                        Inl e \<Rightarrow> (Some e, st1)
                                      | Inr st2 \<Rightarrow> (None, st2)))))"

text \<open>\<open>rotate_pieces\<close> fills a fresh dict while iterating over the old one.\<close>

definition rotate_pieces :: "ChessState \<Rightarrow> ChessState" where
  "rotate_pieces st =
     fold (\<lambda>((x, y), piece) new_pieces. AList.update (8 - x, 9 - y) piece new_pieces) st []"

text \<open>A board as the class maintains it: a dict whose keys are on the board and whose
  values passed \<open>_check_piece\<close>.\<close>

definition valid_state :: "ChessState \<Rightarrow> bool" where
  "valid_state st =
     (distinct (map fst st) \<and>
      list_all (\<lambda>(k, v). check_key k = Inr () \<and> check_piece v = Inr ()) st)"


section \<open>ChessChecker\<close>

text \<open>The strings \<open>"red"\<close>/\<open>"black"\<close> and \<open>"down"\<close>/\<open>"up"\<close>.\<close>

datatype color = Red | Black
datatype side = Down | Up

definition check_in_palace :: "pos \<Rightarrow> color \<Rightarrow> bool \<Rightarrow> bool" where
  "check_in_palace p color rotate_flag =
     (if (color = Red \<and> \<not> rotate_flag) \<or> (color = Black \<and> rotate_flag)
      then 3 \<le> fst p \<and> fst p \<le> 5 \<and> 0 \<le> snd p \<and> snd p \<le> 2
      else 3 \<le> fst p \<and> fst p \<le> 5 \<and> 7 \<le> snd p \<and> snd p \<le> 9)"

definition check_in_side :: "pos \<Rightarrow> color \<Rightarrow> bool \<Rightarrow> bool" where
  "check_in_side p color rotate_flag =
     (if (color = Red \<and> \<not> rotate_flag) \<or> (color = Black \<and> rotate_flag)
      then snd p \<le> 4
      else snd p \<ge> 5)"

text \<open>\<open>range(a, b, step)\<close> for the two steps the checker uses, \<open>1\<close> and \<open>-1\<close>.\<close>

definition py_range :: "int \<Rightarrow> int \<Rightarrow> int \<Rightarrow> int list" where
  "py_range a b step = (if step > 0 then [a..b - 1] else rev [b + 1..a])"

definition count_between :: "ChessState \<Rightarrow> pos \<Rightarrow> pos \<Rightarrow> error + nat" where
  "count_between cur_state start end =
     (case start of (sx, sy) \<Rightarrow> case end of (ex, ey) \<Rightarrow>
        if sx = ex then
          (let step = (if ey > sy then 1 else - 1)
           in Inr (length (filter (\<lambda>y. contains cur_state (sx, y)) (py_range (sy + step) ey step))))
        else if sy = ey then
          (let step = (if ex > sx then 1 else - 1)
           in Inr (length (filter (\<lambda>x. contains cur_state (x, sy)) (py_range (sx + step) ex step))))
        else Inl (ValueError ''Must be aligned on row/col''))"

text \<open>
  \<open>check_move\<close> returns \<open>True\<close> or raises. The piece is dispatched by comparing the
  string with the two letters of each kind; whatever is left falls into the last
  (pawn) branch.
\<close>

definition check_move :: "ChessState \<Rightarrow> pos \<Rightarrow> pos \<Rightarrow> bool \<Rightarrow> error + bool" where
  "check_move cur_state start end rotate_flag =
     (if \<not> contains cur_state start then Inl (ValueError ''No piece at start'')
      else if start = end then Inl (ValueError ''Start and end cannot be the same'')
      else case getitem cur_state start of Inl e \<Rightarrow> Inl e | Inr piece \<Rightarrow>
        case (if contains cur_state end then getitem cur_state end else Inr []) of
          Inl e \<Rightarrow> Inl e
        | Inr target \<Rightarrow>
        if contains cur_state end \<and>
           ((isupper piece \<and> isupper target) \<or> (islower piece \<and> islower target))
        then Inl (ValueError ''Cannot capture own piece'')
        else
          let color = (if isupper piece then Red else Black);
              side = (if (color = Red \<and> \<not> rotate_flag) \<or> (color = Black \<and> rotate_flag)
                      then Down else Up);
              sx = fst start; sy = snd start;
              ex = fst end; ey = snd end;
              dx = ex - sx; dy = ey - sy
          in
          if piece = ustr ''R'' \<or> piece = ustr ''r'' then
            (if \<not> (dx = 0 \<or> dy = 0) then Inl (ValueError ''Rook must move straight'')
             else case count_between cur_state start end of
                    Inl e \<Rightarrow> Inl e
                  | Inr cnt \<Rightarrow> if cnt \<noteq> 0 then Inl (ValueError ''Rook path blocked'')
                              else Inr True)
          else if piece = ustr ''H'' \<or> piece = ustr ''h'' then
            (if \<not> ((\<bar>dx\<bar>, \<bar>dy\<bar>) = (1, 2) \<or> (\<bar>dx\<bar>, \<bar>dy\<bar>) = (2, 1))
             then Inl (ValueError ''Knight must move in day-shape'')
             else let block = (if \<bar>dx\<bar> = 2 then (sx + dx div 2, sy) else (sx, sy + dy div 2))
                  in if contains cur_state block then Inl (ValueError ''Knight's leg blocked'')
                     else Inr True)
          else if piece = ustr ''E'' \<or> piece = ustr ''e'' then
            (if \<not> (\<bar>dx\<bar>, \<bar>dy\<bar>) = (2, 2) then Inl (ValueError ''Elephant must move 2 diagonally'')
             else let eye = (sx + dx div 2, sy + dy div 2)
                  in if contains cur_state eye then Inl (ValueError ''Elephant's eye blocked'')
                     else if \<not> check_in_side end color rotate_flag
                     then Inl (ValueError ''Elephant cannot cross the river'')
                     else Inr True)
          else if piece = ustr ''A'' \<or> piece = ustr ''a'' then
            (if \<not> (\<bar>dx\<bar>, \<bar>dy\<bar>) = (1, 1) then Inl (ValueError ''Advisor must move 1 diagonally'')
             else if \<not> check_in_palace end color rotate_flag
             then Inl (ValueError ''Advisor must stay inside palace'')
             else Inr True)
          else if piece = ustr ''K'' \<or> piece = ustr ''k'' then
            (if \<not> ((\<bar>dx\<bar>, \<bar>dy\<bar>) = (1, 0) \<or> (\<bar>dx\<bar>, \<bar>dy\<bar>) = (0, 1))
             then Inl (ValueError ''King must move 1 step orthogonally'')
             else if \<not> check_in_palace end color rotate_flag
             then Inl (ValueError ''King must stay inside palace'')
             else Inr True)
          else if piece = ustr ''C'' \<or> piece = ustr ''c'' then
            (if \<not> (dx = 0 \<or> dy = 0) then Inl (ValueError ''Cannon must move straight'')
             else case count_between cur_state start end of
                    Inl e \<Rightarrow> Inl e
                  | Inr cnt_between \<Rightarrow>
                      if contains cur_state end then
                        (if cnt_between \<noteq> 1
                         then Inl (ValueError ''Cannon must jump exactly one piece when capturing'')
                         else Inr True)
                      else
                        (if cnt_between \<noteq> 0 then Inl (ValueError ''Cannon path blocked'')
                         else Inr True))
          else
            (if \<not> ((\<bar>dx\<bar>, \<bar>dy\<bar>) = (1, 0) \<or> (\<bar>dx\<bar>, \<bar>dy\<bar>) = (0, 1))
             then Inl (ValueError ''Pawn must move 1 step'')
             else if (side = Up \<and> dy > 0) \<or> (side = Down \<and> dy < 0)
             then Inl (ValueError ''Pawn cannot move backward'')
             else if check_in_side end color rotate_flag \<and> dx \<noteq> 0
             then Inl (ValueError ''Pawn cannot move sideways before crossing river'')
             else Inr True))"


text \<open>Vocabulary for the pawn rule: the side a piece resolves to (the \<open>color\<close> and
  \<open>side\<close> computed at the top of \<open>check_move\<close>), the river half of a side, the
  backward row direction of a side, and the own-piece capture test.\<close>

definition resolved_side :: "pystr \<Rightarrow> bool \<Rightarrow> side" where
  "resolved_side piece rotate_flag =
     (if (isupper piece \<and> \<not> rotate_flag) \<or> (\<not> isupper piece \<and> rotate_flag) then Down else Up)"

definition own_river_half :: "side \<Rightarrow> int \<Rightarrow> bool" where
  "own_river_half s row = (case s of Down \<Rightarrow> 0 \<le> row \<and> row \<le> 4 | Up \<Rightarrow> 5 \<le> row \<and> row \<le> 9)"

definition backward :: "side \<Rightarrow> int \<Rightarrow> bool" where
  "backward s dy = (case s of Down \<Rightarrow> dy < 0 | Up \<Rightarrow> dy > 0)"

definition captures_own :: "ChessState \<Rightarrow> pystr \<Rightarrow> pos \<Rightarrow> bool" where
  "captures_own st piece e =
     (case getitem st e of Inl _ \<Rightarrow> False
      | Inr target \<Rightarrow> (isupper piece \<and> isupper target) \<or> (islower piece \<and> islower target))"

text \<open>The last branch of \<open>check_move\<close> on its own.\<close>

definition pawn_rule :: "pystr \<Rightarrow> pos \<Rightarrow> pos \<Rightarrow> bool \<Rightarrow> error + bool" where
  "pawn_rule piece start end rotate_flag =
     (let color = (if isupper piece then Red else Black);
          side = (if (color = Red \<and> \<not> rotate_flag) \<or> (color = Black \<and> rotate_flag)
                  then Down else Up);
          dx = fst end - fst start; dy = snd end - snd start
      in if \<not> ((\<bar>dx\<bar>, \<bar>dy\<bar>) = (1, 0) \<or> (\<bar>dx\<bar>, \<bar>dy\<bar>) = (0, 1))
         then Inl (ValueError ''Pawn must move 1 step'')
         else if (side = Up \<and> dy > 0) \<or> (side = Down \<and> dy < 0)
         then Inl (ValueError ''Pawn cannot move backward'')
         else if check_in_side end color rotate_flag \<and> dx \<noteq> 0
         then Inl (ValueError ''Pawn cannot move sideways before crossing river'')
         else Inr True)"

text \<open>The relabelling of one position by \<open>rotate_pieces\<close>.\<close>

definition rot :: "pos \<Rightarrow> pos" where
  "rot p = (8 - fst p, 9 - snd p)"


section \<open>ChessParser\<close>

text \<open>
  The glyphs of the notation, as code points: the numerals one to nine and ten, the
  markers front, middle and back, the operators traverse, advance and retreat, and the
  seven piece glyphs of each colour.
\<close>

abbreviation zh1 :: nat where "zh1 \<equiv> 19968"
abbreviation zh2 :: nat where "zh2 \<equiv> 20108"
abbreviation zh3 :: nat where "zh3 \<equiv> 19977"
abbreviation zh4 :: nat where "zh4 \<equiv> 22235"
abbreviation zh5 :: nat where "zh5 \<equiv> 20116"
abbreviation zh6 :: nat where "zh6 \<equiv> 20845"
abbreviation zh7 :: nat where "zh7 \<equiv> 19971"
abbreviation zh8 :: nat where "zh8 \<equiv> 20843"
abbreviation zh9 :: nat where "zh9 \<equiv> 20061"
abbreviation zh10 :: nat where "zh10 \<equiv> 21313"

abbreviation zh_front :: nat where "zh_front \<equiv> 21069"
abbreviation zh_middle :: nat where "zh_middle \<equiv> 20013"
abbreviation zh_back :: nat where "zh_back \<equiv> 21518"

abbreviation zh_traverse :: nat where "zh_traverse \<equiv> 24179"
abbreviation zh_advance :: nat where "zh_advance \<equiv> 36827"
abbreviation zh_retreat :: nat where "zh_retreat \<equiv> 36864"

abbreviation red_rook :: nat where "red_rook \<equiv> 36710"
abbreviation red_horse :: nat where "red_horse \<equiv> 39532"
abbreviation red_elephant :: nat where "red_elephant \<equiv> 30456"
abbreviation red_advisor :: nat where "red_advisor \<equiv> 20181"
abbreviation red_king :: nat where "red_king \<equiv> 24069"
abbreviation red_cannon :: nat where "red_cannon \<equiv> 28846"
abbreviation red_pawn :: nat where "red_pawn \<equiv> 20853"

abbreviation black_rook :: nat where "black_rook \<equiv> 36554"
abbreviation black_horse :: nat where "black_horse \<equiv> 39340"
abbreviation black_elephant :: nat where "black_elephant \<equiv> 35937"
abbreviation black_advisor :: nat where "black_advisor \<equiv> 22763"
abbreviation black_king :: nat where "black_king \<equiv> 23558"
abbreviation black_cannon :: nat where "black_cannon \<equiv> 30770"
abbreviation black_pawn :: nat where "black_pawn \<equiv> 21330"

text \<open>
  What the parser takes from Python's Unicode tables. \<open>\d\<close> and \<open>int\<close> read the
  decimal digits of Unicode and \<open>str.isdigit\<close> a few characters more; on ASCII these
  are the digits \<open>0\<close> to \<open>9\<close>, beyond ASCII the tables are parameters.
\<close>

record unicode =
  u_decimal :: "nat \<Rightarrow> nat option"
  u_isdigit :: "nat \<Rightarrow> bool"

text \<open>A table with no digit beyond ASCII; exact on ASCII and on the CJK ideographs.\<close>

definition ascii_digits :: unicode where
  "ascii_digits = \<lparr>u_decimal = (\<lambda>c. None), u_isdigit = (\<lambda>c. False)\<rparr>"

definition decimal_value :: "unicode \<Rightarrow> nat \<Rightarrow> nat option" where
  "decimal_value U c =
     (if c < 128 then (if 48 \<le> c \<and> c \<le> 57 then Some (c - 48) else None) else u_decimal U c)"

definition isdigit :: "unicode \<Rightarrow> nat \<Rightarrow> bool" where
  "isdigit U c = (if c < 128 then 48 \<le> c \<and> c \<le> 57 else u_isdigit U c)"

definition detect_color :: "unicode \<Rightarrow> pystr \<Rightarrow> error + color" where
  "detect_color U cmd =
     (if list_ex (\<lambda>c. decimal_value U c \<noteq> None) cmd then Inr Black
      else if list_ex (\<lambda>c. c \<in> set [zh1, zh2, zh3, zh4, zh5, zh6, zh7, zh8, zh9, zh10]) cmd
      then Inr Red
      else Inl (ValueError ''Cannot determine color''))"

definition detect_side :: "color \<Rightarrow> bool \<Rightarrow> side" where
  "detect_side color rotate_flag =
     (if \<not> rotate_flag then (if color = Red then Down else Up)
      else (if color = Black then Down else Up))"

fun alternation :: "unicode \<Rightarrow> color \<Rightarrow> pystr list \<Rightarrow> error + pystr list" where
  "alternation U expected_color [] = Inr []"
| "alternation U expected_color (cmd # cmds) =
     (case detect_color U cmd of
        Inl e \<Rightarrow> Inl e
      | Inr color \<Rightarrow>
          if color \<noteq> expected_color then Inl (ValueError ''Alternation error'')
          else (case alternation U (if expected_color = Black then Red else Black) cmds of
                  Inl e \<Rightarrow> Inl e
                | Inr checked \<Rightarrow> Inr (cmd # checked)))"

text \<open>
  \<open>normalize_cmds\<close> begins with three library calls (\<open>re.sub\<close>, \<open>re.split\<close>, and the
  stripped non-empty parts); \<open>cmds\<close> is their result, the tokens of the text.
\<close>

definition normalize_cmds :: "unicode \<Rightarrow> pystr list \<Rightarrow> error + pystr list" where
  "normalize_cmds U cmds =
     (case cmds of
        [] \<Rightarrow> Inr []
      | first # _ \<Rightarrow> (case detect_color U first of
                        Inl e \<Rightarrow> Inl e
                      | Inr expected_color \<Rightarrow> alternation U expected_color cmds))"

definition RED_PIECES :: "(nat \<times> pystr) list" where
  "RED_PIECES =
     [(red_rook, ustr ''R''), (red_horse, ustr ''H''), (red_elephant, ustr ''E''),
      (red_advisor, ustr ''A''), (red_king, ustr ''K''), (red_cannon, ustr ''C''),
      (red_pawn, ustr ''P'')]"

definition BLACK_PIECES :: "(nat \<times> pystr) list" where
  "BLACK_PIECES =
     [(black_rook, ustr ''r''), (black_horse, ustr ''h''), (black_elephant, ustr ''e''),
      (black_advisor, ustr ''a''), (black_king, ustr ''k''), (black_cannon, ustr ''c''),
      (black_pawn, ustr ''p'')]"

definition parse_piece_char :: "nat \<Rightarrow> color \<Rightarrow> bool \<Rightarrow> error + pystr" where
  "parse_piece_char piece_ch color strict_flag =
     (if strict_flag then
        (case (if color = Red then map_of RED_PIECES piece_ch else map_of BLACK_PIECES piece_ch) of
           None \<Rightarrow> Inl (ValueError ''Invalid piece [strict]'')
         | Some piece \<Rightarrow> Inr piece)
      else
        (case (case map_of RED_PIECES piece_ch of
                 None \<Rightarrow> map_of BLACK_PIECES piece_ch
               | Some piece \<Rightarrow> Some piece) of
           None \<Rightarrow> Inl (ValueError ''Invalid piece'')
         | Some piece \<Rightarrow> Inr (if color = Red then str_upper piece else str_lower piece)))"

definition CHINESE_IDX :: "(nat \<times> int) list" where
  "CHINESE_IDX =
     [(zh1, 1), (zh2, 2), (zh3, 3), (zh4, 4), (zh5, 5), (zh6, 6), (zh7, 7), (zh8, 8), (zh9, 9)]"

definition parse_col_idx :: "unicode \<Rightarrow> nat \<Rightarrow> color \<Rightarrow> side \<Rightarrow> error + int" where
  "parse_col_idx U col_ch color side =
     (case (if color = Red then
              (case map_of CHINESE_IDX col_ch of
                 Some n \<Rightarrow> Inr (n - 1)
               | None \<Rightarrow> Inl (ValueError ''Red column must be Chinese numerals''))
            else if isdigit U col_ch then
              (case decimal_value U col_ch of
                 None \<Rightarrow> Inl (ValueError ''invalid literal for int()'')
               | Some d \<Rightarrow>
                   (let idx = int d - 1
                    in if 0 \<le> idx \<and> idx \<le> 8 then Inr idx
                       else Inl (ValueError ''Black column must be in 1-9'')))
            else Inl (ValueError ''Black column must be numeric'')) of
        Inl e \<Rightarrow> Inl e
      | Inr col \<Rightarrow> Inr (if side = Down then 8 - col else col))"

definition parse_row_delta :: "unicode \<Rightarrow> nat \<Rightarrow> color \<Rightarrow> side \<Rightarrow> error + int" where
  "parse_row_delta U delta_ch color side =
     (case (if color = Red then
              (case map_of CHINESE_IDX delta_ch of
                 Some n \<Rightarrow> Inr n
               | None \<Rightarrow> Inl (ValueError ''Red step must be in Chinese numerals''))
            else if isdigit U delta_ch then
              (case decimal_value U delta_ch of
                 None \<Rightarrow> Inl (ValueError ''invalid literal for int()'')
               | Some d \<Rightarrow>
                   (let idx = int d
                    in if 0 \<le> idx \<and> idx \<le> 9 then Inr idx
                       else Inl (ValueError ''Black step must be in 1-9'')))
            else Inl (ValueError ''Invalid black step'')) of
        Inl e \<Rightarrow> Inl e
      | Inr delta \<Rightarrow> Inr (if side = Up then - delta else delta))"

text \<open>
  \<open>state.items()\<close> reads every key through \<open>__getitem__\<close>, which raises \<open>KeyError\<close> on
  a key off the board. \<open>positions_of\<close> is \<open>state_map[piece]\<close>: the positions holding
  \<open>piece\<close>, in the board's order; the piece is a key of \<open>state_map\<close> iff the list is
  not empty.
\<close>

definition items :: "ChessState \<Rightarrow> error + ChessState" where
  "items st = (if list_all (\<lambda>(k, v). check_key k = Inr ()) st then Inr st else Inl KeyError)"

definition positions_of :: "ChessState \<Rightarrow> pystr \<Rightarrow> pos list" where
  "positions_of st piece = map fst (filter (\<lambda>(k, v). v = piece) st)"

text \<open>The source position (the block "Determine starting position").\<close>

definition parse_cmd_start ::
  "unicode \<Rightarrow> ChessState \<Rightarrow> nat \<Rightarrow> nat \<Rightarrow> pystr \<Rightarrow> color \<Rightarrow> side \<Rightarrow> error + pos" where
  "parse_cmd_start U st c0 col_ch piece color side =
     (if c0 \<notin> set [zh_front, zh_middle, zh_back] then
        (if positions_of st piece = [] then Inl (ValueError ''Source piece not found'')
         else case parse_col_idx U col_ch color side of
                Inl e \<Rightarrow> Inl e
              | Inr start_col \<Rightarrow>
                  (case find (\<lambda>(i, j). i = start_col) (positions_of st piece) of
                     None \<Rightarrow> Inl (ValueError ''Source piece not found at column'')
                   | Some start \<Rightarrow> Inr start))
      else
        (if positions_of st piece = [] then Inl KeyError
         else if length (remdups (map fst (positions_of st piece))) > 1
         then Inl (ValueError ''not in same column'')
         else
           let positions = (if side = Down then sort_key (\<lambda>x. - snd x) (positions_of st piece)
                            else sort_key (\<lambda>x. snd x) (positions_of st piece))
           in if c0 = zh_front then
                (if length positions < 2 then Inl (ValueError ''front requires >=2 pieces'')
                 else Inr (positions ! 0))
              else if c0 = zh_back then
                (if length positions < 2 then Inl (ValueError ''back requires >=2 pieces'')
                 else Inr (last positions))
              else
                (if length positions < 3 then Inl (ValueError ''middle requires >=3 pieces'')
                 else Inr (positions ! 1))))"

text \<open>\<open>start[1] + parse_row_delta(...)\<close> for advance, \<open>start[1] - ...\<close> for retreat.\<close>

definition row_after ::
  "unicode \<Rightarrow> nat \<Rightarrow> pos \<Rightarrow> nat \<Rightarrow> color \<Rightarrow> side \<Rightarrow> error + int" where
  "row_after U op_type start delta_ch color side =
     (if op_type = zh_advance then
        (case parse_row_delta U delta_ch color side of
           Inl e \<Rightarrow> Inl e | Inr d \<Rightarrow> Inr (snd start + d))
      else if op_type = zh_retreat then
        (case parse_row_delta U delta_ch color side of
           Inl e \<Rightarrow> Inl e | Inr d \<Rightarrow> Inr (snd start - d))
      else Inl (ValueError ''Invalid operator''))"

text \<open>The destination (the block "Determine ending position").\<close>

definition parse_cmd_end ::
  "unicode \<Rightarrow> pystr \<Rightarrow> color \<Rightarrow> side \<Rightarrow> pos \<Rightarrow> nat \<Rightarrow> nat \<Rightarrow> error + pos" where
  "parse_cmd_end U piece color side start op_type op_arg_ch =
     (if str_lower piece \<in> set [ustr ''k'', ustr ''r'', ustr ''c'', ustr ''p''] then
        (if op_type = zh_traverse then
           (case parse_col_idx U op_arg_ch color side of
              Inl e \<Rightarrow> Inl e
            | Inr c \<Rightarrow> Inr (c, snd start))
         else
           (case row_after U op_type start op_arg_ch color side of
              Inl e \<Rightarrow> Inl e
            | Inr end_row \<Rightarrow>
                if \<not> (0 \<le> end_row \<and> end_row \<le> 9) then Inl (ValueError ''Row out of range'')
                else Inr (fst start, end_row)))
      else if str_lower piece \<in> set [ustr ''a'', ustr ''e''] then
        (case parse_col_idx U op_arg_ch color side of
           Inl e \<Rightarrow> Inl e
         | Inr end_col \<Rightarrow>
             (let delta_unit =
                    (if str_lower piece = ustr ''a'' then (if color = Red then zh1 else 49)
                     else (if color = Red then zh2 else 50))
              in case row_after U op_type start delta_unit color side of
                   Inl e \<Rightarrow> Inl e
                 | Inr end_row \<Rightarrow> Inr (end_col, end_row)))
      else
        (case parse_col_idx U op_arg_ch color side of
           Inl e \<Rightarrow> Inl e
         | Inr end_col \<Rightarrow>
             if \<bar>end_col - fst start\<bar> = 1 then
               (case row_after U op_type start (if color = Red then zh2 else 50) color side of
                  Inl e \<Rightarrow> Inl e
                | Inr end_row \<Rightarrow> Inr (end_col, end_row))
             else if \<bar>end_col - fst start\<bar> = 2 then
               (case row_after U op_type start (if color = Red then zh1 else 49) color side of
                  Inl e \<Rightarrow> Inl e
                | Inr end_row \<Rightarrow> Inr (end_col, end_row))
             else Inl (ValueError ''Invalid horse move'')))"

text \<open>
  \<open>parse_cmd\<close>. \<open>g\<close> is the value of the module's \<open>_rotate_flag_default\<close> at the call;
  the argument \<open>rotate_flag\<close> is \<open>None\<close>, \<open>False\<close> or \<open>True\<close>, and
  \<open>rotate_flag or get_rotate_flag()\<close> keeps it only when it is \<open>True\<close>.
  Indexing \<open>cmd[0]\<close> to \<open>cmd[3]\<close> raises \<open>IndexError\<close> on a command shorter than four
  characters.
\<close>

definition resolve_flag :: "bool option \<Rightarrow> bool \<Rightarrow> bool" where
  "resolve_flag rotate_flag g = (case rotate_flag of Some True \<Rightarrow> True | _ \<Rightarrow> g)"

definition parse_cmd ::
  "unicode \<Rightarrow> bool \<Rightarrow> ChessState \<Rightarrow> pystr \<Rightarrow> bool option \<Rightarrow> bool \<Rightarrow> error + arrow" where
  "parse_cmd U g state cmd rotate_flag strict_flag =
     (let rotate_flag = resolve_flag rotate_flag g
      in case items state of
           Inl e \<Rightarrow> Inl e
         | Inr st \<Rightarrow>
        (case cmd of
           c0 # c1 # c2 # c3 # _ \<Rightarrow>
             (let piece_ch = (if c0 \<in> set [zh_front, zh_middle, zh_back] then c1 else c0);
                  col_ch = c1; op_type = c2; op_arg_ch = c3
              in case detect_color U cmd of
                   Inl e \<Rightarrow> Inl e
                 | Inr color \<Rightarrow>
                (let side = detect_side color rotate_flag
                 in case parse_piece_char piece_ch color strict_flag of
                      Inl e \<Rightarrow> Inl e
                    | Inr piece \<Rightarrow>
                   (case parse_cmd_start U st c0 col_ch piece color side of
                      Inl e \<Rightarrow> Inl e
                    | Inr start \<Rightarrow>
                      (case parse_cmd_end U piece color side start op_type op_arg_ch of
                         Inl e \<Rightarrow> Inl e
                       | Inr end \<Rightarrow> Inr (start, end)))))
         | _ \<Rightarrow> Inl IndexError))"


section \<open>ChessRecorder\<close>

text \<open>
  A node holds its own copy of a board, the move that led to it, and \<open>extra_info\<close>, a
  dict with at most the keys \<open>"color"\<close> and \<open>"desc"\<close>: one optional field for each.
\<close>

record ChessNode =
  node_state :: ChessState
  node_trace :: "arrow option"
  info_color :: "color option"
  info_desc :: "pystr option"

record ChessRecorder =
  r_history :: "ChessNode list"
  r_rotate_flag :: bool
  r_checkpoints :: "(pystr \<times> nat) list"

definition ChessState_init :: "bool \<Rightarrow> bool \<Rightarrow> bool option \<Rightarrow> ChessState" where
  "ChessState_init g empty_arg rotate_arg =
     (let pieces = (if empty_arg then [] else DEFAULT_STATE)
      in case rotate_arg of
           None \<Rightarrow> if g then rotate_pieces pieces else pieces
         | Some r \<Rightarrow> if r then rotate_pieces pieces else pieces)"

definition ChessRecorder_init :: "bool \<Rightarrow> ChessState option \<Rightarrow> bool option \<Rightarrow> ChessRecorder" where
  "ChessRecorder_init g state rotate_flag =
     (let state = (case state of None \<Rightarrow> ChessState_init g False rotate_flag | Some st \<Rightarrow> st)
      in \<lparr>r_history = [\<lparr>node_state = state, node_trace = None, info_color = None,
                       info_desc = None\<rparr>],
          r_rotate_flag = resolve_flag rotate_flag g,
          r_checkpoints = []\<rparr>)"

text \<open>\<open>ChessNodeDeque.pop\<close>: the initial node is never removed.\<close>

definition pop :: "ChessNode list \<Rightarrow> ChessNode list" where
  "pop queue = (if length queue > 1 then butlast queue else queue)"

text \<open>
  The methods of the recorder mutate it in place and may raise; each returns the
  exception (if any) and the recorder as the call leaves it. \<open>_queue[-1]\<close> raises
  \<open>IndexError\<close> on an empty deque.
\<close>

definition rec_move ::
  "ChessRecorder \<Rightarrow> pos \<Rightarrow> pos \<Rightarrow> pystr option \<Rightarrow> error option \<times> ChessRecorder" where
  "rec_move r start end desc =
     (if r_history r = [] then (Some IndexError, r)
      else
        let cur = node_state (last (r_history r))
        in case check_move cur start end (r_rotate_flag r) of
             Inl e \<Rightarrow> (Some (ValueError ''Invalid move detected''), r)
           | Inr _ \<Rightarrow>
          (case getitem cur start of
             Inl e \<Rightarrow> (Some e, r)
           | Inr piece \<Rightarrow>
            (let color = (if isupper piece then Red else Black);
                 pre_color = info_color (last (r_history r))
             in if pre_color = Some color
                then (Some (ValueError ''The color of the current player is the same as the previous player.''), r)
                else (case move cur start end of
                        (Some e, _) \<Rightarrow> (Some e, r)
                      | (None, new_state) \<Rightarrow>
                          (None, r\<lparr>r_history := r_history r @
                             [\<lparr>node_state = new_state, node_trace = Some (start, end),
                               info_color = Some color,
                               info_desc = (case desc of None \<Rightarrow> None
                                            | Some d \<Rightarrow> if d = [] then None else Some d)\<rparr>]\<rparr>)))))"

text \<open>The argument of \<open>exec\<close>: a \<open>str\<close> (given by its tokens, see \<open>normalize_cmds\<close>), a
  list or tuple of \<open>str\<close>, or something else.\<close>

datatype cmds_arg = CmdText "pystr list" | CmdList "pystr list" | CmdOther

definition exec_input :: "unicode \<Rightarrow> cmds_arg \<Rightarrow> error + pystr list" where
  "exec_input U cmds =
     (case (case cmds of
              CmdText text \<Rightarrow> normalize_cmds U text
            | CmdList l \<Rightarrow> Inr l
            | CmdOther \<Rightarrow> Inl TypeError) of
        Inl e \<Rightarrow> Inl e
      | Inr l \<Rightarrow> Inr (filter (\<lambda>cmd. cmd \<noteq> []) l))"

text \<open>One turn of the loop of \<open>exec\<close>: parse against the last board, then \<open>move\<close>.
  Only a \<open>ValueError\<close> of the parser is caught and re-raised with a longer message.\<close>

definition exec_one ::
  "unicode \<Rightarrow> bool \<Rightarrow> bool \<Rightarrow> ChessRecorder \<Rightarrow> pystr \<Rightarrow> error option \<times> ChessRecorder" where
  "exec_one U g strict_flag r cmd =
     (if r_history r = [] then (Some IndexError, r)
      else case parse_cmd U g (node_state (last (r_history r))) cmd (Some (r_rotate_flag r)) strict_flag of
             Inl (ValueError _) \<Rightarrow> (Some (ValueError ''Invalid cmd detected''), r)
           | Inl e \<Rightarrow> (Some e, r)
           | Inr (start, end) \<Rightarrow> rec_move r start end (Some cmd))"

fun exec_loop ::
  "unicode \<Rightarrow> bool \<Rightarrow> bool \<Rightarrow> ChessRecorder \<Rightarrow> pystr list \<Rightarrow> error option \<times> ChessRecorder" where
  "exec_loop U g strict_flag r [] = (None, r)"
| "exec_loop U g strict_flag r (cmd # cmds) =
     (case exec_one U g strict_flag r cmd of
        (Some e, r') \<Rightarrow> (Some e, r')
      | (None, r') \<Rightarrow> exec_loop U g strict_flag r' cmds)"

definition rec_exec ::
  "unicode \<Rightarrow> bool \<Rightarrow> ChessRecorder \<Rightarrow> cmds_arg \<Rightarrow> bool \<Rightarrow> error option \<times> ChessRecorder" where
  "rec_exec U g r cmds strict_flag =
     (case exec_input U cmds of
        Inl e \<Rightarrow> (Some e, r)
      | Inr l \<Rightarrow> exec_loop U g strict_flag r l)"

definition set_checkpoint :: "ChessRecorder \<Rightarrow> pystr \<Rightarrow> ChessRecorder" where
  "set_checkpoint r name = r\<lparr>r_checkpoints := AList.update name (length (r_history r)) (r_checkpoints r)\<rparr>"

text \<open>
  The loop \<open>while len(self._history) > target_len: self._history.pop()\<close>. Nothing in
  the loop itself bounds it (\<open>pop\<close> leaves a deque of one node alone), so it is a
  partial function: \<open>None\<close> is a loop that does not return.
\<close>

partial_function (option) pop_until :: "ChessNode list \<Rightarrow> nat \<Rightarrow> ChessNode list option" where
  "pop_until queue target_len =
     (if length queue > target_len then pop_until (pop queue) target_len else Some queue)"

definition rollback_to_checkpoint ::
  "ChessRecorder \<Rightarrow> pystr \<Rightarrow> (error option \<times> ChessRecorder) option" where
  "rollback_to_checkpoint r name =
     (case map_of (r_checkpoints r) name of
        None \<Rightarrow> Some (Some KeyError, r)
      | Some target_len \<Rightarrow>
          (case pop_until (r_history r) target_len of
             None \<Rightarrow> None
           | Some queue \<Rightarrow> Some (None, r\<lparr>r_history := queue\<rparr>)))"

definition rollback :: "ChessRecorder \<Rightarrow> int \<Rightarrow> error option \<times> ChessRecorder" where
  "rollback r steps =
     (if steps < 0 then (Some (ValueError ''Steps must be non-negative''), r)
      else (None, r\<lparr>r_history := (pop ^^ nat steps) (r_history r)\<rparr>))"

text \<open>
  Calls on a recorder. Each call is made under some value \<open>g\<close> of the module's default
  flag; a call that raises still leaves a recorder behind, which the caller can go on
  using.
\<close>

datatype call =
    Move pos pos "pystr option"
  | Exec cmds_arg bool
  | SetCheckpoint pystr
  | RollbackToCheckpoint pystr
  | Rollback int

fun run_call ::
  "unicode \<Rightarrow> bool \<Rightarrow> call \<Rightarrow> ChessRecorder \<Rightarrow> (error option \<times> ChessRecorder) option" where
  "run_call U g (Move start end desc) r = Some (rec_move r start end desc)"
| "run_call U g (Exec cmds strict_flag) r = Some (rec_exec U g r cmds strict_flag)"
| "run_call U g (SetCheckpoint name) r = Some (None, set_checkpoint r name)"
| "run_call U g (RollbackToCheckpoint name) r = rollback_to_checkpoint r name"
| "run_call U g (Rollback steps) r = Some (rollback r steps)"

inductive reachable :: "unicode \<Rightarrow> ChessRecorder \<Rightarrow> bool" for U :: unicode where
  reachable_init: "reachable U (ChessRecorder_init g state flag)"
| reachable_call: "reachable U r \<Longrightarrow> run_call U g c r = Some (err, r') \<Longrightarrow> reachable U r'"

text \<open>Consecutive nodes that both carry a trace record different colours.\<close>

fun alternating :: "ChessNode list \<Rightarrow> bool" where
  "alternating (a # b # rest) =
     ((node_trace a \<noteq> None \<and> node_trace b \<noteq> None \<longrightarrow> info_color a \<noteq> info_color b) \<and>
      alternating (b # rest))"
| "alternating _ = True"

text \<open>A run of \<open>move\<close> and \<open>exec\<close> calls that all succeed; \<open>None\<close> otherwise.\<close>

fun is_move_or_exec :: "call \<Rightarrow> bool" where
  "is_move_or_exec (Move _ _ _) = True"
| "is_move_or_exec (Exec _ _) = True"
| "is_move_or_exec _ = False"

fun run_moves :: "unicode \<Rightarrow> (bool \<times> call) list \<Rightarrow> ChessRecorder \<Rightarrow> ChessRecorder option" where
  "run_moves U [] r = Some r"
| "run_moves U ((g, c) # cs) r =
     (if \<not> is_move_or_exec c then None
      else case run_call U g c r of
             Some (None, r') \<Rightarrow> run_moves U cs r'
           | _ \<Rightarrow> None)"


text \<open>Adjacent nodes record different values under \<open>"color"\<close> (the first node none).\<close>

fun colours_differ :: "ChessNode list \<Rightarrow> bool" where
  "colours_differ (a # b # rest) = (info_color a \<noteq> info_color b \<and> colours_differ (b # rest))"
| "colours_differ _ = True"

text \<open>What every reachable recorder satisfies: a history that is not empty and alternates,
  and checkpoints that point at a length of at least one.\<close>

definition rec_inv :: "ChessRecorder \<Rightarrow> bool" where
  "rec_inv r = (r_history r \<noteq> [] \<and> colours_differ (r_history r) \<and>
                list_all (\<lambda>(name, target_len). 1 \<le> target_len) (r_checkpoints r))"

text \<open>A small game: a red and a black rook on the left file, red moves, black moves.\<close>

definition two_rooks :: ChessState where
  "two_rooks = [((0, 0), ustr ''R''), ((0, 9), ustr ''r'')]"

definition rec0 :: ChessRecorder where
  "rec0 = ChessRecorder_init False (Some two_rooks) None"

definition rec1 :: ChessRecorder where
  "rec1 = snd (rec_move rec0 (0, 0) (0, 1) None)"

definition rec2 :: ChessRecorder where
  "rec2 = snd (rec_move rec1 (0, 9) (0, 8) None)"

text \<open>The command "rook, file nine, advance one", and \<open>rec0\<close> after \<open>exec\<close> has run it.\<close>

definition rook_up :: pystr where
  "rook_up = [red_rook, zh9, zh_advance, zh1]"

definition rec_up :: ChessRecorder where
  "rec_up = snd (rec_move rec0 (0, 0) (0, 1) (Some rook_up))"


section \<open>ChessStateIO\<close>

text \<open>
  \<open>save_to_dict\<close> writes a position with \<open>str\<close>, which for a pair of ints is
  \<open>(x, y)\<close> in decimal. \<open>load_from_dict\<close> reads a key back with
  \<open>ast.literal_eval\<close>, a library function that returns some Python value or raises;
  it is a parameter here. Of the values only ints, bools and tuples matter to
  \<open>_check_key\<close> (a bool is an instance of \<open>int\<close>); every other value is \<open>POther\<close>.

  A position is a pair of ints (\<open>Types.Pos\<close>), and \<open>str_pos\<close> is \<open>str\<close> on such a
  pair. A key that \<open>literal_eval\<close> returns with a bool in it is accepted by
  \<open>_check_key\<close>; as a dict key it is the int pair it equals, and the board here holds
  that int pair. Python keeps the bool in the key object, which only \<open>str\<close> tells
  apart: \<open>save_to_dict\<close> on a board loaded from the token \<open>(True, False)\<close> writes
  that token again, where \<open>str_pos\<close> writes \<open>(1, 0)\<close>. Boards with such keys are
  outside what \<open>save_to_dict\<close> models here.
\<close>

datatype pyval = PInt int | PBool bool | PTuple "pyval list" | POther

fun str_nat :: "nat \<Rightarrow> pystr" where
  "str_nat n = (if n < 10 then [48 + n] else str_nat (n div 10) @ [48 + n mod 10])"

declare str_nat.simps [simp del]

definition str_int :: "int \<Rightarrow> pystr" where
  "str_int i = (if i < 0 then 45 # str_nat (nat (- i)) else str_nat (nat i))"

definition str_pos :: "pos \<Rightarrow> pystr" where
  "str_pos p = ustr ''('' @ str_int (fst p) @ ustr '', '' @ str_int (snd p) @ ustr '')''"

text \<open>\<open>isinstance(v, int)\<close>, with the integer a value stands for.\<close>

fun int_of :: "pyval \<Rightarrow> int option" where
  "int_of (PInt i) = Some i"
| "int_of (PBool b) = Some (if b then 1 else 0)"
| "int_of _ = None"

text \<open>\<open>_check_key\<close> on an arbitrary value: a tuple of two ints on the board.\<close>

fun check_key_val :: "pyval \<Rightarrow> error + pos" where
  "check_key_val (PTuple [a, b]) =
     (case int_of a of
        None \<Rightarrow> Inl KeyError
      | Some x \<Rightarrow> (case int_of b of
                     None \<Rightarrow> Inl KeyError
                   | Some y \<Rightarrow> (case check_key (x, y) of
                                  Inl e \<Rightarrow> Inl e
                                | Inr _ \<Rightarrow> Inr (x, y))))"
| "check_key_val _ = Inl KeyError"

fun is_int_pair :: "pyval \<Rightarrow> bool" where
  "is_int_pair (PTuple [a, b]) = (int_of a \<noteq> None \<and> int_of b \<noteq> None)"
| "is_int_pair _ = False"

definition save_to_dict :: "ChessState \<Rightarrow> (pystr \<times> pystr) list" where
  "save_to_dict state = fold (\<lambda>(pos, piece) d. AList.update (str_pos pos) piece d) state []"

text \<open>The loop of \<open>load_from_dict\<close>; \<open>state[pos] = piece\<close> checks the key, then the
  piece, then stores.\<close>

fun load_items ::
  "(pystr \<Rightarrow> error + pyval) \<Rightarrow> (pystr \<times> pystr) list \<Rightarrow> ChessState \<Rightarrow> error + ChessState" where
  "load_items literal_eval [] state = Inr state"
| "load_items literal_eval ((key, piece) # rest) state =
     (case literal_eval key of
        Inl e \<Rightarrow> Inl e
      | Inr v \<Rightarrow>
          (case check_key_val v of
             Inl e \<Rightarrow> Inl e
           | Inr pos \<Rightarrow>
               (case check_piece piece of
                  Inl e \<Rightarrow> Inl e
                | Inr _ \<Rightarrow> load_items literal_eval rest (AList.update pos piece state))))"

definition load_from_dict ::
  "(pystr \<Rightarrow> error + pyval) \<Rightarrow> bool \<Rightarrow> (pystr \<times> pystr) list \<Rightarrow> error + ChessState" where
  "load_from_dict literal_eval g data = load_items literal_eval data (ChessState_init g True None)"

text \<open>
  A reader for exactly the tokens \<open>str_pos\<close> writes, \<open>(\<close> int \<open>, \<close> int \<open>)\<close>: an
  instance of the parameter on which the examples below run.
\<close>

definition read_nat :: "pystr \<Rightarrow> nat option" where
  "read_nat s =
     (if s \<noteq> [] \<and> list_all (\<lambda>c. 48 \<le> c \<and> c \<le> 57) s
      then Some (foldl (\<lambda>a c. 10 * a + (c - 48)) 0 s) else None)"

definition read_int :: "pystr \<Rightarrow> int option" where
  "read_int s =
     (case s of
        [] \<Rightarrow> None
      | c # rest \<Rightarrow> if c = 45 then map_option (\<lambda>n. - int n) (read_nat rest)
                    else map_option int (read_nat s))"

definition read_pair :: "pystr \<Rightarrow> error + pyval" where
  "read_pair s =
     (case s of
        [] \<Rightarrow> Inl (ValueError ''malformed node or string'')
      | c # body \<Rightarrow>
          if c \<noteq> 40 \<or> body = [] \<or> last body \<noteq> 41
          then Inl (ValueError ''malformed node or string'')
          else
            (case dropWhile (\<lambda>c. c \<noteq> 44) (butlast body) of
               d # e # b \<Rightarrow>
                 (if e \<noteq> 32 then Inl (ValueError ''malformed node or string'')
                  else case read_int (takeWhile (\<lambda>c. c \<noteq> 44) (butlast body)) of
                         None \<Rightarrow> Inl (ValueError ''malformed node or string'')
                       | Some x \<Rightarrow>
                           (case read_int b of
                              None \<Rightarrow> Inl (ValueError ''malformed node or string'')
                            | Some y \<Rightarrow> Inr (PTuple [PInt x, PInt y])))
             | _ \<Rightarrow> Inl (ValueError ''malformed node or string'')))"


chapter \<open>Properties\<close>

section \<open>ChessState: properties\<close>

lemma update_fresh: "k \<notin> fst ` set al \<Longrightarrow> AList.update k v al = al @ [(k, v)]"
  by (induction al) auto

lemma fold_update_fresh:
  "distinct (map fst (acc @ map (\<lambda>(k, v). (f k, v)) xs)) \<Longrightarrow>
   fold (\<lambda>(k, v) new. AList.update (f k) v new) xs acc = acc @ map (\<lambda>(k, v). (f k, v)) xs"
proof (induction xs arbitrary: acc)
  case Nil
  then show ?case by simp
next
  case (Cons a xs)
  obtain k v where a: "a = (k, v)" by (cases a)
  from Cons.prems have fresh: "f k \<notin> fst ` set acc"
    by (auto simp: a)
  have d: "distinct (map fst ((acc @ [(f k, v)]) @ map (\<lambda>(k, v). (f k, v)) xs))"
    using Cons.prems by (simp add: a)
  show ?case
    using Cons.IH [OF d] by (simp add: a update_fresh [OF fresh])
qed

lemma rot_rot [simp]: "rot (rot p) = p"
  by (simp add: rot_def)

lemma inj_rot: "inj rot"
  by (rule inj_on_inverseI [where g = rot]) simp

lemma rotate_pieces_map:
  assumes "distinct (map fst st)"
  shows "rotate_pieces st = map (\<lambda>(k, v). (rot k, v)) st"
proof -
  have m: "map fst (map (\<lambda>(k, v). (rot k, v)) st) = map rot (map fst st)"
    by (induction st) auto
  have "distinct (map rot (map fst st))"
    using assms by (simp add: distinct_map inj_on_subset [OF inj_rot] del: map_map)
  then have d: "distinct (map fst ([] @ map (\<lambda>(k, v). (rot k, v)) st))"
    unfolding append_Nil m .
  have "rotate_pieces st = fold (\<lambda>(k, v) new. AList.update (rot k) v new) st []"
    by (simp add: rotate_pieces_def rot_def split_def)
  then show ?thesis
    using fold_update_fresh [OF d] by simp
qed

lemma map_of_rot:
  "map_of (map (\<lambda>(k, v). (rot k, v)) st) (rot p) = map_of st p"
  by (induction st) (auto dest: injD [OF inj_rot])


text \<open>
  C9. On a board (a dict: no position occurs twice), \<open>rotate_pieces\<close> puts at
  \<open>(8 - x, 9 - y)\<close> exactly the piece that stood at \<open>(x, y)\<close>, symbol unchanged, and
  nothing anywhere else; rotating twice gives back the original board.
\<close>

theorem rotate_pieces_involution:
  assumes "distinct (map fst st)"
  shows "(\<forall>x y. map_of (rotate_pieces st) (8 - x, 9 - y) = map_of st (x, y)) \<and>
         rotate_pieces (rotate_pieces st) = st"
proof -
  have r: "rotate_pieces st = map (\<lambda>(k, v). (rot k, v)) st"
    by (rule rotate_pieces_map [OF assms])
  have "map fst (map (\<lambda>(k, v). (rot k, v)) st) = map rot (map fst st)"
    by (induction st) auto
  moreover have "distinct (map rot (map fst st))"
    using assms by (simp add: distinct_map inj_on_subset [OF inj_rot] del: map_map)
  ultimately have d: "distinct (map fst (rotate_pieces st))"
    by (simp only: r)
  have twice: "map (\<lambda>(k, v). (rot k, v)) (map (\<lambda>(k, v). (rot k, v)) st) = st"
    by (induction st) auto
  have "\<And>x y. map_of (rotate_pieces st) (8 - x, 9 - y) = map_of st (x, y)"
    using map_of_rot [of st "(x, y)" for x y] by (simp add: r rot_def)
  moreover have "rotate_pieces (rotate_pieces st) = st"
    using rotate_pieces_map [OF d] unfolding r twice .
  ultimately show ?thesis by blast
qed

theorem rotate_pieces_involution_witness:
  "distinct (map fst DEFAULT_STATE) \<and>
   map_of (rotate_pieces DEFAULT_STATE) (8 - 0, 9 - 0) = map_of DEFAULT_STATE (0, 0) \<and>
   map_of DEFAULT_STATE (0, 0) = Some (ustr ''R'') \<and>
   rotate_pieces (rotate_pieces DEFAULT_STATE) = DEFAULT_STATE"
proof -
  have d: "distinct (map fst DEFAULT_STATE)"
    by (simp add: DEFAULT_STATE_def)
  have v: "map_of DEFAULT_STATE (0, 0) = Some (ustr ''R'')"
    by (simp add: DEFAULT_STATE_def)
  show ?thesis
    using rotate_pieces_involution [OF d] d v by blast
qed

text \<open>
  C2. \<open>move\<close> with \<open>start = end\<close> on an occupied square: the assignment
  \<open>self[end] = self[start]\<close> changes nothing and \<open>del self[start]\<close> then removes the
  piece, so the call succeeds and the piece is on the board nowhere.
\<close>

theorem move_same_square_loses_piece:
  "move [((0, 0), ustr ''R'')] (0, 0) (0, 0) = (None, [])"
  by (simp add: move_def getitem_def setitem_def delitem_def check_key_def check_piece_def
      COLS_NUM_def ROWS_NUM_def VALID_PIECES_def ustr_def)

text \<open>
  For distinct squares on the board \<open>move\<close> does relocate: it fails exactly when
  \<open>start\<close> is empty and leaves the board alone then; otherwise the piece of \<open>start\<close>
  is at \<open>end\<close>, \<open>start\<close> is empty and every other square is as before.
\<close>

lemma move_unoccupied:
  "map_of st start = None \<Longrightarrow> move st start end = (Some (ValueError ''No piece at start''), st)"
  by (simp add: move_def)

lemma move_relocates:
  assumes "check_key start = Inr ()" and "check_key end = Inr ()" and "start \<noteq> end"
    and "map_of st start = Some piece" and "check_piece piece = Inr ()"
  shows "\<exists>st'. move st start end = (None, st') \<and>
           map_of st' = (map_of st)(end \<mapsto> piece, start := None)"
  using assms
  by (simp add: move_def getitem_def setitem_def delitem_def update_conv' delete_conv')


section \<open>ChessChecker: the pawn rule\<close>

lemma getitem_in_board: "getitem st p = Inr v \<Longrightarrow> 0 \<le> snd p \<and> snd p \<le> 9"
  by (auto simp: getitem_def check_key_def ROWS_NUM_def split: prod.splits if_splits sum.splits)

lemma pawn_letters:
  "piece = ustr ''P'' \<or> piece = ustr ''p'' \<Longrightarrow>
   piece \<noteq> ustr ''R'' \<and> piece \<noteq> ustr ''r'' \<and> piece \<noteq> ustr ''H'' \<and> piece \<noteq> ustr ''h'' \<and>
   piece \<noteq> ustr ''E'' \<and> piece \<noteq> ustr ''e'' \<and> piece \<noteq> ustr ''A'' \<and> piece \<noteq> ustr ''a'' \<and>
   piece \<noteq> ustr ''K'' \<and> piece \<noteq> ustr ''k'' \<and> piece \<noteq> ustr ''C'' \<and> piece \<noteq> ustr ''c''"
  by (auto simp: ustr_def)

lemma check_move_pawn_branch:
  assumes g: "getitem st start = Inr piece" and p: "piece = ustr ''P'' \<or> piece = ustr ''p''"
  shows "check_move st start end rotate_flag =
           (if start = end then Inl (ValueError ''Start and end cannot be the same'')
            else if captures_own st piece end then Inl (ValueError ''Cannot capture own piece'')
            else pawn_rule piece start end rotate_flag)"
proof -
  have c: "contains st start" using g by (simp add: contains_def)
  note l = pawn_letters [OF p]
  show ?thesis
  proof (cases "getitem st end")
    case (Inl e)
    then show ?thesis
      using c g l by (simp add: check_move_def contains_def captures_own_def pawn_rule_def Let_def)
  next
    case (Inr t)
    then show ?thesis
      using c g l by (simp add: check_move_def contains_def captures_own_def pawn_rule_def Let_def)
  qed
qed

lemma pawn_rule_ok:
  assumes "0 \<le> snd start \<and> snd start \<le> 9"
  shows "pawn_rule piece start end rotate_flag = Inr True \<longleftrightarrow>
           ((\<bar>fst end - fst start\<bar>, \<bar>snd end - snd start\<bar>) = (1, 0) \<or>
            (\<bar>fst end - fst start\<bar>, \<bar>snd end - snd start\<bar>) = (0, 1)) \<and>
           \<not> backward (resolved_side piece rotate_flag) (snd end - snd start) \<and>
           (own_river_half (resolved_side piece rotate_flag) (snd start) \<longrightarrow> fst end - fst start = 0)"
proof (cases "resolved_side piece rotate_flag")
  case Down
  then have s: "(isupper piece \<and> \<not> rotate_flag) \<or> (\<not> isupper piece \<and> rotate_flag)"
    by (simp add: resolved_side_def split: if_splits)
  show ?thesis
    using assms s unfolding Down
    by (auto simp: pawn_rule_def Let_def backward_def own_river_half_def check_in_side_def)
next
  case Up
  then have s: "\<not> ((isupper piece \<and> \<not> rotate_flag) \<or> (\<not> isupper piece \<and> rotate_flag))"
    by (simp add: resolved_side_def split: if_splits)
  show ?thesis
    using assms s unfolding Up
    by (auto simp: pawn_rule_def Let_def backward_def own_river_half_def check_in_side_def)
qed

text \<open>
  C7. For a pawn (\<open>P\<close> or \<open>p\<close>) standing on \<open>start\<close>, \<open>check_move\<close> accepts the move to
  \<open>end\<close> exactly when the generic preconditions hold (\<open>start \<noteq> end\<close>, no piece of the
  mover's colour on \<open>end\<close>), the move is a single orthogonal step, it does not go in the
  backward row direction of the pawn's side (towards row 0 for "down", towards row 9
  for "up"), and it keeps its column while the pawn stands on its own river half
  (rows 0-4 for "down", rows 5-9 for "up").
\<close>

theorem check_move_pawn:
  assumes "getitem st start = Inr piece" and "piece = ustr ''P'' \<or> piece = ustr ''p''"
  shows "check_move st start end rotate_flag = Inr True \<longleftrightarrow>
           start \<noteq> end \<and> \<not> captures_own st piece end \<and>
           ((\<bar>fst end - fst start\<bar>, \<bar>snd end - snd start\<bar>) = (1, 0) \<or>
            (\<bar>fst end - fst start\<bar>, \<bar>snd end - snd start\<bar>) = (0, 1)) \<and>
           \<not> backward (resolved_side piece rotate_flag) (snd end - snd start) \<and>
           (own_river_half (resolved_side piece rotate_flag) (snd start) \<longrightarrow> fst end - fst start = 0)"
proof -
  have b: "0 \<le> snd start \<and> snd start \<le> 9" using getitem_in_board [OF assms(1)] .
  show ?thesis
    unfolding check_move_pawn_branch [OF assms]
    using pawn_rule_ok [OF b, of piece "end" rotate_flag]
    by simp
qed

theorem check_move_pawn_witness:
  "getitem [((4, 3), ustr ''P'')] (4, 3) = Inr (ustr ''P'') \<and>
   check_move [((4, 3), ustr ''P'')] (4, 3) (4, 4) False = Inr True \<and>
   check_move [((4, 3), ustr ''P'')] (4, 3) (5, 3) False \<noteq> Inr True \<and>
   check_move [((4, 3), ustr ''P'')] (4, 3) (4, 2) False \<noteq> Inr True"
proof -
  have g: "getitem [((4, 3), ustr ''P'')] (4, 3) = Inr (ustr ''P'')"
    by (simp add: getitem_def check_key_def COLS_NUM_def ROWS_NUM_def)
  have u: "isupper (ustr ''P'')"
    by (simp add: isupper_def ustr_def is_upper_cp_def is_lower_cp_def)
  have c: "\<not> captures_own [((4, 3), ustr ''P'')] (ustr ''P'') e" if "e \<noteq> (4, 3)" for e
    using that by (cases e) (auto simp: captures_own_def getitem_def check_key_def)
  have s: "resolved_side (ustr ''P'') False = Down"
    using u by (simp add: resolved_side_def)
  show ?thesis
    using check_move_pawn [OF g, of "(4, 4)" False] check_move_pawn [OF g, of "(5, 3)" False]
      check_move_pawn [OF g, of "(4, 2)" False] g c [of "(4, 4)"] c [of "(5, 3)"] c [of "(4, 2)"]
    by (simp add: s backward_def own_river_half_def)
qed


section \<open>ChessParser and ChessChecker\<close>

lemmas parse_eval = parse_cmd_def resolve_flag_def items_def check_key_def COLS_NUM_def ROWS_NUM_def
  detect_color_def decimal_value_def isdigit_def ascii_digits_def detect_side_def parse_piece_char_def
  RED_PIECES_def BLACK_PIECES_def ustr_def str_upper_def str_lower_def upper_cp_def lower_cp_def
  is_upper_cp_def is_lower_cp_def parse_cmd_start_def parse_cmd_end_def positions_of_def
  parse_col_idx_def parse_row_delta_def CHINESE_IDX_def row_after_def Let_def

lemmas check_eval = check_move_def contains_def getitem_def check_key_def COLS_NUM_def ROWS_NUM_def
  isupper_def islower_def is_upper_cp_def is_lower_cp_def ustr_def count_between_def py_range_def
  check_in_side_def check_in_palace_def Let_def





lemma count_between_not_nopiece:
  "count_between st s e \<noteq> Inl (ValueError ''No piece at start'')"
  by (cases s; cases e) (simp add: count_between_def Let_def)

lemma getitem_not_ValueError: "getitem st p \<noteq> Inl (ValueError m)"
  by (cases p; cases "map_of st p") (simp_all add: getitem_def check_key_def)

















text \<open>
  C10. An explicit \<open>rotate_flag=False\<close> is the same call as \<open>rotate_flag=None\<close>: both
  are replaced by the module default. Under a default of \<open>True\<close> an explicit \<open>False\<close>
  therefore parses as \<open>True\<close> does. The constructor of \<open>ChessRecorder\<close> stores its flag
  by the same expression.
\<close>

theorem parse_cmd_explicit_False:
  "parse_cmd U g st cmd (Some False) strict = parse_cmd U g st cmd None strict \<and>
   parse_cmd U True st cmd (Some False) strict = parse_cmd U True st cmd (Some True) strict \<and>
   r_rotate_flag (ChessRecorder_init g s (Some False)) = r_rotate_flag (ChessRecorder_init g s None)"
  by (simp add: parse_cmd_def resolve_flag_def ChessRecorder_init_def)

theorem parse_cmd_explicit_False_witness:
  "parse_cmd ascii_digits True DEFAULT_STATE [red_cannon, zh2, zh_traverse, zh5] (Some False) False
     = parse_cmd ascii_digits True DEFAULT_STATE [red_cannon, zh2, zh_traverse, zh5] None False \<and>
   parse_cmd ascii_digits True DEFAULT_STATE [red_cannon, zh2, zh_traverse, zh5] (Some False) False
     = Inr ((1, 2), (4, 2)) \<and>
   parse_cmd ascii_digits False DEFAULT_STATE [red_cannon, zh2, zh_traverse, zh5] (Some False) False
     = Inr ((7, 2), (4, 2))"
proof -
  have a: "parse_cmd ascii_digits True DEFAULT_STATE [red_cannon, zh2, zh_traverse, zh5] None False
     = Inr ((1, 2), (4, 2))"
    by (simp add: parse_eval DEFAULT_STATE_def)
  have b: "parse_cmd ascii_digits False DEFAULT_STATE [red_cannon, zh2, zh_traverse, zh5] (Some False) False
     = Inr ((7, 2), (4, 2))"
    by (simp add: parse_eval DEFAULT_STATE_def)
  show ?thesis
    using parse_cmd_explicit_False [of ascii_digits True DEFAULT_STATE
        "[red_cannon, zh2, zh_traverse, zh5]" False] a b
    by simp
qed


section \<open>ChessRecorder: properties\<close>

lemma take_cong_length:
  "min a (length h) = min b (length h) \<Longrightarrow> take a h = take b h"
proof -
  assume m: "min a (length h) = min b (length h)"
  have "take a h = take (min a (length h)) h" by (simp add: min_def)
  also have "\<dots> = take (min b (length h)) h" by (simp only: m)
  also have "\<dots> = take b h" by (simp add: min_def)
  finally show ?thesis .
qed

lemma pop_take: "h \<noteq> [] \<Longrightarrow> pop h = take (max 1 (length h - 1)) h"
proof (cases "length h > 1")
  case True
  then have "max 1 (length h - 1) = length h - 1" by arith
  with True show ?thesis by (simp add: pop_def butlast_conv_take)
next
  case False
  assume "h \<noteq> []"
  with False have "length h = 1" by (cases h) auto
  then show ?thesis by (simp add: pop_def)
qed

lemma pop_funpow:
  "h \<noteq> [] \<Longrightarrow> (pop ^^ n) h = take (max 1 (length h - n)) h"
proof (induction n)
  case 0
  then show ?case by (simp add: max_def)
next
  case (Suc n)
  let ?k = "max 1 (length h - n)"
  have ne: "take ?k h \<noteq> []" using Suc.prems by (cases h) (auto simp: max_def)
  have "(pop ^^ Suc n) h = pop (take ?k h)" using Suc by simp
  also have "\<dots> = take (max 1 (length (take ?k h) - 1)) (take ?k h)"
    by (rule pop_take [OF ne])
  also have "\<dots> = take (min (max 1 (length (take ?k h) - 1)) ?k) h"
    by simp
  also have "\<dots> = take (max 1 (length h - Suc n)) h"
    by (rule take_cong_length) (auto simp: max_def min_def)
  finally show ?case .
qed

lemma pop_until_total:
  "1 \<le> t \<Longrightarrow> pop_until h t = Some (if length h > t then take t h else h)"
proof (induction "length h" arbitrary: h rule: less_induct)
  case less
  show ?case
  proof (cases "length h > t")
    case False
    then show ?thesis by (subst pop_until.simps) simp
  next
    case True
    then have l: "length h > 1" using less.prems by simp
    then have p: "pop h = butlast h" by (simp add: pop_def)
    have "pop_until h t = pop_until (butlast h) t"
      using True by (subst pop_until.simps) (simp add: p)
    also have "\<dots> = Some (if length (butlast h) > t then take t (butlast h) else butlast h)"
      using l less.prems by (intro less.hyps) simp_all
    also have "(if length (butlast h) > t then take t (butlast h) else butlast h) = take t h"
    proof (cases "length (butlast h) > t")
      case True
      then have "t < length h" by simp
      then show ?thesis using True by (simp add: take_butlast)
    next
      case False
      with \<open>length h > t\<close> have "t = length h - 1" by simp
      then show ?thesis using False by (simp add: butlast_conv_take)
    qed
    finally show ?thesis using True by simp
  qed
qed


text \<open>What one call of move can do to the recorder.\<close>

lemma rec_move_cases:
  assumes "rec_move r start end desc = (err, r')"
  shows "(err \<noteq> None \<and> r' = r) \<or>
         (err = None \<and> r_history r \<noteq> [] \<and>
          (\<exists>n. r' = r\<lparr>r_history := r_history r @ [n]\<rparr> \<and> node_trace n \<noteq> None \<and>
               info_color n \<noteq> info_color (last (r_history r))))"
proof (cases "r_history r = []")
  case True
  then show ?thesis using assms by (auto simp: rec_move_def)
next
  case False
  show ?thesis
  proof (cases "check_move (node_state (last (r_history r))) start end (r_rotate_flag r)")
    case (Inl e)
    then show ?thesis using assms False by (auto simp: rec_move_def Let_def)
  next
    case (Inr b)
    show ?thesis
    proof (cases "getitem (node_state (last (r_history r))) start")
      case (Inl e)
      then show ?thesis using assms False Inr by (auto simp: rec_move_def Let_def)
    next
      case g: (Inr piece)
      obtain me st' where m: "move (node_state (last (r_history r))) start end = (me, st')"
        by (cases "move (node_state (last (r_history r))) start end")
      show ?thesis
        using assms False Inr g m
        by (cases me) (auto simp: rec_move_def Let_def split: if_splits)
    qed
  qed
qed

lemma exec_one_cases:
  assumes "exec_one U g strict r cmd = (err, r')"
  shows "(err \<noteq> None \<and> r' = r) \<or>
         (err = None \<and> r_history r \<noteq> [] \<and>
          (\<exists>n. r' = r\<lparr>r_history := r_history r @ [n]\<rparr> \<and> node_trace n \<noteq> None \<and>
               info_color n \<noteq> info_color (last (r_history r))))"
proof (cases "r_history r = []")
  case True
  then show ?thesis using assms by (auto simp: exec_one_def)
next
  case False
  show ?thesis
  proof (cases "parse_cmd U g (node_state (last (r_history r))) cmd (Some (r_rotate_flag r)) strict")
    case (Inl e)
    then show ?thesis using assms False by (cases e) (auto simp: exec_one_def)
  next
    case (Inr a)
    obtain s e where a: "a = (s, e)" by (cases a)
    have "rec_move r s e (Some cmd) = (err, r')"
      using assms False Inr by (simp add: exec_one_def a)
    then show ?thesis by (rule rec_move_cases)
  qed
qed


lemma colours_differ_snoc:
  "h \<noteq> [] \<Longrightarrow> colours_differ h \<Longrightarrow> info_color n \<noteq> info_color (last h) \<Longrightarrow>
   colours_differ (h @ [n])"
  by (induction h rule: colours_differ.induct) auto

lemma colours_differ_take: "colours_differ h \<Longrightarrow> colours_differ (take k h)"
proof (induction h arbitrary: k)
  case Nil
  then show ?case by simp
next
  case (Cons a h)
  show ?case
  proof (cases k)
    case 0
    then show ?thesis by simp
  next
    case (Suc j)
    show ?thesis
    proof (cases h)
      case Nil
      then show ?thesis using Suc by simp
    next
      case (Cons b rest)
      have d: "colours_differ h" using Cons.prems Cons by simp
      have "colours_differ (take j h)" using d by (rule Cons.IH)
      then show ?thesis using Cons.prems Cons Suc by (cases j) simp_all
    qed
  qed
qed

lemma colours_differ_alternating: "colours_differ h \<Longrightarrow> alternating h"
  by (induction h rule: colours_differ.induct) auto

lemma exec_loop_extends:
  "exec_loop U g strict r cs = (err, r') \<Longrightarrow>
   \<exists>ns. r' = r\<lparr>r_history := r_history r @ ns\<rparr> \<and>
        (err = None \<longrightarrow> length ns = length cs) \<and>
        (r_history r \<noteq> [] \<longrightarrow> colours_differ (r_history r) \<longrightarrow>
           colours_differ (r_history r @ ns))"
proof (induction cs arbitrary: r)
  case Nil
  then show ?case by (auto intro: exI [of _ "[]"])
next
  case (Cons cmd cs)
  obtain e1 r1 where o: "exec_one U g strict r cmd = (e1, r1)"
    by (cases "exec_one U g strict r cmd")
  from exec_one_cases [OF o] show ?case
  proof
    assume "e1 \<noteq> None \<and> r1 = r"
    then have "err = e1" "r' = r" using Cons.prems o by auto
    then show ?thesis using \<open>e1 \<noteq> None \<and> r1 = r\<close> by (auto intro: exI [of _ "[]"])
  next
    assume a: "e1 = None \<and> r_history r \<noteq> [] \<and>
      (\<exists>n. r1 = r\<lparr>r_history := r_history r @ [n]\<rparr> \<and> node_trace n \<noteq> None \<and>
           info_color n \<noteq> info_color (last (r_history r)))"
    then obtain n where n: "r1 = r\<lparr>r_history := r_history r @ [n]\<rparr>"
      and c: "info_color n \<noteq> info_color (last (r_history r))" and ne: "r_history r \<noteq> []"
      by blast
    have "exec_loop U g strict r1 cs = (err, r')" using Cons.prems o a by simp
    from Cons.IH [OF this] obtain ns where
      r': "r' = r1\<lparr>r_history := r_history r1 @ ns\<rparr>"
      and l: "err = None \<longrightarrow> length ns = length cs"
      and d: "r_history r1 \<noteq> [] \<longrightarrow> colours_differ (r_history r1) \<longrightarrow>
           colours_differ (r_history r1 @ ns)"
      by blast
    have "r' = r\<lparr>r_history := r_history r @ (n # ns)\<rparr>" using r' n by simp
    moreover have "err = None \<longrightarrow> length (n # ns) = length (cmd # cs)" using l by simp
    moreover have "colours_differ (r_history r) \<longrightarrow> colours_differ (r_history r @ (n # ns))"
      using d n colours_differ_snoc [OF ne _ c] by simp
    ultimately show ?thesis by blast
  qed
qed

lemma exec_loop_append:
  "exec_loop U g strict r (xs @ ys) =
     (case exec_loop U g strict r xs of
        (Some e, r') \<Rightarrow> (Some e, r')
      | (None, r') \<Rightarrow> exec_loop U g strict r' ys)"
  by (induction xs arbitrary: r) (auto split: prod.splits option.splits)


lemma rec_inv_init: "rec_inv (ChessRecorder_init g s f)"
  by (simp add: rec_inv_def ChessRecorder_init_def Let_def)

lemma update_set: "set (AList.update k v al) \<subseteq> insert (k, v) (set al)"
  by (induction al) auto

lemma rec_inv_take:
  assumes "rec_inv r" and "1 \<le> k"
  shows "rec_inv (r\<lparr>r_history := take k (r_history r)\<rparr>)"
proof -
  have "take k (r_history r) \<noteq> []"
    using assms by (cases "r_history r"; cases k) (auto simp: rec_inv_def)
  then show ?thesis
    using assms by (simp add: rec_inv_def colours_differ_take)
qed

lemma rollback_history:
  assumes "r_history r \<noteq> []" and "0 \<le> steps"
  shows "rollback r steps =
           (None, r\<lparr>r_history := take (max 1 (length (r_history r) - nat steps)) (r_history r)\<rparr>)"
  using assms by (simp add: rollback_def pop_funpow)

lemma rec_inv_step:
  assumes i: "rec_inv r" and c: "run_call U g c r = Some (err, r')"
  shows "rec_inv r'"
proof (cases c)
  case (Move s e d)
  then have "rec_move r s e d = (err, r')" using c by simp
  from rec_move_cases [OF this] show ?thesis
    using i by (auto simp: rec_inv_def colours_differ_snoc)
next
  case (Exec cmds strict)
  show ?thesis
  proof (cases "exec_input U cmds")
    case (Inl e)
    then show ?thesis using c i Exec by (simp add: rec_exec_def)
  next
    case (Inr l)
    then have "exec_loop U g strict r l = (err, r')" using c Exec by (simp add: rec_exec_def)
    from exec_loop_extends [OF this] show ?thesis
      using i by (auto simp: rec_inv_def)
  qed
next
  case (SetCheckpoint name)
  have "list_all (\<lambda>(name, target_len). 1 \<le> target_len)
          (AList.update name (length (r_history r)) (r_checkpoints r))"
    using i update_set [of name "length (r_history r)" "r_checkpoints r"]
    by (cases "r_history r") (auto simp: rec_inv_def list_all_iff)
  then show ?thesis using c i SetCheckpoint by (auto simp: set_checkpoint_def rec_inv_def)
next
  case (RollbackToCheckpoint name)
  show ?thesis
  proof (cases "map_of (r_checkpoints r) name")
    case None
    then show ?thesis using c i RollbackToCheckpoint by (simp add: rollback_to_checkpoint_def)
  next
    case (Some t)
    then have "(name, t) \<in> set (r_checkpoints r)" by (rule map_of_SomeD)
    then have t: "1 \<le> t" using i by (auto simp: rec_inv_def list_all_iff)
    have "r' = r\<lparr>r_history := (if length (r_history r) > t then take t (r_history r) else r_history r)\<rparr>"
      using c RollbackToCheckpoint Some pop_until_total [OF t, of "r_history r"]
      by (simp add: rollback_to_checkpoint_def)
    then show ?thesis using rec_inv_take [OF i t] i by (cases "length (r_history r) > t") simp_all
  qed
next
  case (Rollback steps)
  show ?thesis
  proof (cases "steps < 0")
    case True
    then show ?thesis using c i Rollback by (simp add: rollback_def)
  next
    case False
    have ne: "r_history r \<noteq> []" using i by (simp add: rec_inv_def)
    have "r' = r\<lparr>r_history := take (max 1 (length (r_history r) - nat steps)) (r_history r)\<rparr>"
      using c Rollback False rollback_history [OF ne, of steps] by simp
    then show ?thesis using rec_inv_take [OF i, of "max 1 (length (r_history r) - nat steps)"] by simp
  qed
qed

lemma reachable_inv: "reachable U r \<Longrightarrow> rec_inv r"
  by (induction rule: reachable.induct) (auto intro: rec_inv_init rec_inv_step)


lemma rec_move_same_colour:
  assumes "r_history r \<noteq> []"
    and "getitem (node_state (last (r_history r))) start = Inr piece"
    and "info_color (last (r_history r)) = Some (if isupper piece then Red else Black)"
  shows "\<exists>e. rec_move r start end desc = (Some e, r)"
  using assms
  by (cases "check_move (node_state (last (r_history r))) start end (r_rotate_flag r)")
     (auto simp: rec_move_def Let_def)

text \<open>
  C3. In every recorder reached from a fresh one by calls of \<open>move\<close>, \<open>exec\<close>,
  \<open>set_checkpoint\<close>, \<open>rollback_to_checkpoint\<close> and \<open>rollback\<close> (failed calls
  included), no two consecutive nodes that both carry a trace record the same colour;
  and \<open>move\<close> fails, leaving the recorder as it was, whenever the piece on \<open>start\<close> has
  the colour recorded in the last node.
\<close>

theorem history_alternates:
  assumes "reachable U r"
  shows "alternating (r_history r) \<and>
         (\<forall>start end desc piece.
            getitem (node_state (last (r_history r))) start = Inr piece \<and>
            info_color (last (r_history r)) = Some (if isupper piece then Red else Black) \<longrightarrow>
            (\<exists>e. rec_move r start end desc = (Some e, r)))"
proof -
  have i: "rec_inv r" using assms by (rule reachable_inv)
  then have "alternating (r_history r)"
    by (simp add: rec_inv_def colours_differ_alternating)
  moreover have "r_history r \<noteq> []" using i by (simp add: rec_inv_def)
  ultimately show ?thesis using rec_move_same_colour by blast
qed

text \<open>
  C6. \<open>rollback\<close> fails on a negative count and leaves the recorder alone; otherwise it
  drops nodes from the tail, at most \<open>steps\<close> of them and never the first one. On a
  history of three nodes \<open>rollback(2)\<close> leaves one node and a further \<open>rollback(5)\<close>
  changes nothing and does not fail. A reachable recorder always has at least one node.
\<close>

theorem rollback_keeps_root:
  "(steps < 0 \<longrightarrow> (\<exists>e. rollback r steps = (Some e, r))) \<and>
   (0 \<le> steps \<and> r_history r \<noteq> [] \<longrightarrow>
      rollback r steps =
        (None, r\<lparr>r_history := take (max 1 (length (r_history r) - nat steps)) (r_history r)\<rparr>)) \<and>
   (length (r_history r) = 3 \<longrightarrow>
      (\<exists>r1. rollback r 2 = (None, r1) \<and> length (r_history r1) = 1 \<and>
            rollback r1 5 = (None, r1))) \<and>
   (reachable U r \<longrightarrow> 1 \<le> length (r_history r))"
proof (intro conjI impI)
  assume "steps < 0"
  then show "\<exists>e. rollback r steps = (Some e, r)" by (simp add: rollback_def)
next
  assume "0 \<le> steps \<and> r_history r \<noteq> []"
  then show "rollback r steps =
        (None, r\<lparr>r_history := take (max 1 (length (r_history r) - nat steps)) (r_history r)\<rparr>)"
    by (simp add: rollback_history)
next
  assume l: "length (r_history r) = 3"
  then have ne: "r_history r \<noteq> []" by auto
  let ?r1 = "r\<lparr>r_history := take 1 (r_history r)\<rparr>"
  have a: "rollback r 2 = (None, ?r1)" using rollback_history [OF ne, of 2] l by simp
  have l1: "length (r_history ?r1) = 1" using l by simp
  then have ne1: "r_history ?r1 \<noteq> []" by auto
  have b: "rollback ?r1 5 = (None, ?r1)" using rollback_history [OF ne1, of 5] l1 by simp
  show "\<exists>r1. rollback r 2 = (None, r1) \<and> length (r_history r1) = 1 \<and> rollback r1 5 = (None, r1)"
    using a l1 b by blast
next
  assume "reachable U r"
  then have "r_history r \<noteq> []" using reachable_inv by (auto simp: rec_inv_def)
  then show "1 \<le> length (r_history r)" by (cases "r_history r") auto
qed

lemma run_moves_extends:
  "run_moves U cs r = Some r' \<Longrightarrow> \<exists>ns. r' = r\<lparr>r_history := r_history r @ ns\<rparr>"
proof (induction cs arbitrary: r)
  case Nil
  then show ?case by (auto intro: exI [of _ "[]"])
next
  case (Cons gc cs)
  obtain g c where gc: "gc = (g, c)" by (cases gc)
  from Cons.prems obtain r1 where ok: "is_move_or_exec c"
    and s: "run_call U g c r = Some (None, r1)" and rest: "run_moves U cs r1 = Some r'"
    by (auto simp: gc split: if_splits option.splits prod.splits)
  have "\<exists>n1. r1 = r\<lparr>r_history := r_history r @ n1\<rparr>"
  proof (cases c)
    case (Move s e d)
    then have "rec_move r s e d = (None, r1)" using s by simp
    from rec_move_cases [OF this] show ?thesis by auto
  next
    case (Exec cmds strict)
    show ?thesis
    proof (cases "exec_input U cmds")
      case (Inl e)
      then show ?thesis using s Exec by (simp add: rec_exec_def)
    next
      case (Inr l)
      then have "exec_loop U g strict r l = (None, r1)" using s Exec by (simp add: rec_exec_def)
      from exec_loop_extends [OF this] show ?thesis by blast
    qed
  qed (use ok in simp_all)
  then obtain n1 where n1: "r1 = r\<lparr>r_history := r_history r @ n1\<rparr>" by blast
  from Cons.IH [OF rest] obtain ns where "r' = r1\<lparr>r_history := r_history r1 @ ns\<rparr>" by blast
  then have "r' = r\<lparr>r_history := r_history r @ (n1 @ ns)\<rparr>" using n1 by simp
  then show ?case by blast
qed

text \<open>
  C4. After \<open>set_checkpoint(name)\<close> and any run of successful \<open>move\<close> and \<open>exec\<close> calls,
  \<open>rollback_to_checkpoint(name)\<close> returns and restores the history as it was at the
  checkpoint: the same nodes, hence the same length and the same last board. On a name
  that is not in the table it raises \<open>KeyError\<close> and changes nothing.
\<close>

theorem checkpoint_exact:
  "(r_history r \<noteq> [] \<and> run_moves U cs (set_checkpoint r name) = Some r2 \<longrightarrow>
      (\<exists>r3. rollback_to_checkpoint r2 name = Some (None, r3) \<and>
            r_history r3 = r_history r \<and>
            length (r_history r3) = length (r_history r) \<and>
            node_state (last (r_history r3)) = node_state (last (r_history r)))) \<and>
   (map_of (r_checkpoints r) name = None \<longrightarrow>
      rollback_to_checkpoint r name = Some (Some KeyError, r))"
proof (intro conjI impI)
  assume a: "r_history r \<noteq> [] \<and> run_moves U cs (set_checkpoint r name) = Some r2"
  then obtain ns where r2: "r2 = (set_checkpoint r name)\<lparr>r_history := r_history (set_checkpoint r name) @ ns\<rparr>"
    using run_moves_extends by blast
  have h: "r_history r2 = r_history r @ ns" by (simp add: r2 set_checkpoint_def)
  have m: "map_of (r_checkpoints r2) name = Some (length (r_history r))"
    by (simp add: r2 set_checkpoint_def update_conv')
  have t: "1 \<le> length (r_history r)" using a by (cases "r_history r") auto
  have "pop_until (r_history r2) (length (r_history r)) = Some (r_history r)"
    using pop_until_total [OF t, of "r_history r2"] by (simp add: h)
  then have "rollback_to_checkpoint r2 name = Some (None, r2\<lparr>r_history := r_history r\<rparr>)"
    using m by (simp add: rollback_to_checkpoint_def)
  then show "\<exists>r3. rollback_to_checkpoint r2 name = Some (None, r3) \<and>
            r_history r3 = r_history r \<and>
            length (r_history r3) = length (r_history r) \<and>
            node_state (last (r_history r3)) = node_state (last (r_history r))"
    by simp
next
  assume "map_of (r_checkpoints r) name = None"
  then show "rollback_to_checkpoint r name = Some (Some KeyError, r)"
    by (simp add: rollback_to_checkpoint_def)
qed

lemma exec_commits_prefix:
  assumes "exec_input U cmds = Inr cs" and "k < length cs"
    and "exec_loop U g strict r (take k cs) = (None, rk)"
    and "exec_one U g strict rk (cs ! k) = (Some e, r'')"
  shows "rec_exec U g r cmds strict = (Some e, rk) \<and> r'' = rk \<and>
         length (r_history rk) = length (r_history r) + k \<and>
         take (length (r_history r)) (r_history rk) = r_history r"
proof -
  have same: "r'' = rk" using exec_one_cases [OF assms(4)] by simp
  from exec_loop_extends [OF assms(3)] obtain ns where
    rk: "rk = r\<lparr>r_history := r_history r @ ns\<rparr>" and l: "length ns = length (take k cs)"
    by blast
  have cs: "cs = take k cs @ (cs ! k) # drop (Suc k) cs"
    using assms(2) by (simp add: id_take_nth_drop [symmetric])
  have "exec_loop U g strict r cs = exec_loop U g strict rk ((cs ! k) # drop (Suc k) cs)"
    by (subst cs, subst exec_loop_append) (simp add: assms(3))
  also have "\<dots> = (Some e, rk)" using assms(4) same by simp
  finally have "rec_exec U g r cmds strict = (Some e, rk)"
    using assms(1) by (simp add: rec_exec_def)
  then show ?thesis using same rk l assms(2) by simp
qed

lemma exec_input_Inl:
  "exec_input U cmds = Inl e \<Longrightarrow>
   (\<exists>cs. cmds = CmdText cs \<and> normalize_cmds U cs = Inl e) \<or> (cmds = CmdOther \<and> e = TypeError)"
  by (cases cmds) (auto simp: exec_input_def split: sum.splits)

text \<open>
  C5, as stated, fails for a text. \<open>exec\<close> normalizes a text as a whole before it
  runs any command. In the text "rook nine advance one, rook nine advance one" the
  first command succeeds when run and the second is the first to fail (same colour
  twice), but \<open>normalize_cmds\<close> rejects the text for its alternation and nothing is
  appended, where the claim has one node committed.
\<close>

theorem exec_text_commits_nothing:
  "exec_one ascii_digits False False rec0 rook_up = (None, rec_up) \<and>
   length (r_history rec_up) = length (r_history rec0) + 1 \<and>
   exec_one ascii_digits False False rec_up rook_up
     = (Some (ValueError ''The color of the current player is the same as the previous player.''),
        rec_up) \<and>
   rec_exec ascii_digits False rec0 (CmdText [rook_up, rook_up]) False
     = (Some (ValueError ''Alternation error''), rec0)"
proof -
  have p0: "parse_cmd ascii_digits False [((0, 0), ustr ''R''), ((0, 9), ustr ''r'')]
     [red_rook, zh9, zh_advance, zh1] (Some False) False = Inr ((0, 0), (0, 1))"
    by (simp add: parse_cmd_def resolve_flag_def items_def check_key_def COLS_NUM_def ROWS_NUM_def
        detect_color_def decimal_value_def isdigit_def ascii_digits_def detect_side_def
        parse_piece_char_def RED_PIECES_def BLACK_PIECES_def ustr_def str_upper_def str_lower_def
        upper_cp_def lower_cp_def is_upper_cp_def is_lower_cp_def parse_cmd_start_def
        parse_cmd_end_def positions_of_def parse_col_idx_def parse_row_delta_def CHINESE_IDX_def
        row_after_def Let_def)
  have p1: "parse_cmd ascii_digits False [((0, 9), ustr ''r''), ((0, 1), ustr ''R'')]
     [red_rook, zh9, zh_advance, zh1] (Some False) False = Inr ((0, 1), (0, 2))"
    by (simp add: parse_cmd_def resolve_flag_def items_def check_key_def COLS_NUM_def ROWS_NUM_def
        detect_color_def decimal_value_def isdigit_def ascii_digits_def detect_side_def
        parse_piece_char_def RED_PIECES_def BLACK_PIECES_def ustr_def str_upper_def str_lower_def
        upper_cp_def lower_cp_def is_upper_cp_def is_lower_cp_def parse_cmd_start_def
        parse_cmd_end_def positions_of_def parse_col_idx_def parse_row_delta_def CHINESE_IDX_def
        row_after_def Let_def)
  have r0: "rec0 = \<lparr>r_history = [\<lparr>node_state = [((0, 0), ustr ''R''), ((0, 9), ustr ''r'')],
                 node_trace = None, info_color = None, info_desc = None\<rparr>],
           r_rotate_flag = False, r_checkpoints = []\<rparr>"
    by (simp add: rec0_def ChessRecorder_init_def resolve_flag_def two_rooks_def)
  have m0: "rec_move rec0 (0, 0) (0, 1) (Some rook_up) =
     (None, \<lparr>r_history = [\<lparr>node_state = [((0, 0), ustr ''R''), ((0, 9), ustr ''r'')],
                 node_trace = None, info_color = None, info_desc = None\<rparr>,
               \<lparr>node_state = [((0, 9), ustr ''r''), ((0, 1), ustr ''R'')],
                 node_trace = Some ((0, 0), (0, 1)), info_color = Some Red,
                 info_desc = Some rook_up\<rparr>],
           r_rotate_flag = False, r_checkpoints = []\<rparr>)"
    by (simp add: r0 rook_up_def rec_move_def move_def setitem_def delitem_def check_piece_def
        VALID_PIECES_def check_move_def contains_def getitem_def check_key_def COLS_NUM_def
        ROWS_NUM_def isupper_def islower_def is_upper_cp_def is_lower_cp_def ustr_def
        count_between_def py_range_def Let_def)
  have up: "rec_up = \<lparr>r_history = [\<lparr>node_state = [((0, 0), ustr ''R''), ((0, 9), ustr ''r'')],
                 node_trace = None, info_color = None, info_desc = None\<rparr>,
               \<lparr>node_state = [((0, 9), ustr ''r''), ((0, 1), ustr ''R'')],
                 node_trace = Some ((0, 0), (0, 1)), info_color = Some Red,
                 info_desc = Some rook_up\<rparr>],
           r_rotate_flag = False, r_checkpoints = []\<rparr>"
    by (simp add: rec_up_def m0)
  have a: "exec_one ascii_digits False False rec0 rook_up = (None, rec_up)"
    using p0 m0 by (simp add: exec_one_def r0 up rook_up_def)
  have m1: "rec_move rec_up (0, 1) (0, 2) (Some rook_up) =
     (Some (ValueError ''The color of the current player is the same as the previous player.''),
      rec_up)"
    by (simp add: up rook_up_def rec_move_def check_move_def contains_def getitem_def check_key_def
        COLS_NUM_def ROWS_NUM_def isupper_def islower_def is_upper_cp_def is_lower_cp_def ustr_def
        count_between_def py_range_def Let_def)
  have b: "exec_one ascii_digits False False rec_up rook_up =
     (Some (ValueError ''The color of the current player is the same as the previous player.''),
      rec_up)"
    using p1 m1 by (simp add: exec_one_def up rook_up_def)
  have l: "length (r_history rec_up) = length (r_history rec0) + 1"
    by (simp add: up r0)
  have n: "normalize_cmds ascii_digits [rook_up, rook_up] = Inl (ValueError ''Alternation error'')"
    by (simp add: normalize_cmds_def rook_up_def detect_color_def decimal_value_def
        ascii_digits_def)
  have t: "rec_exec ascii_digits False rec0 (CmdText [rook_up, rook_up]) False
     = (Some (ValueError ''Alternation error''), rec0)"
    by (simp add: rec_exec_def exec_input_def n)
  show ?thesis using a l b t by simp
qed

text \<open>
  C5, amended. The commands \<open>exec\<close> runs are those of a list or tuple, or of a text
  that \<open>normalize_cmds\<close> accepts, empty ones left out. When the commands before
  position \<open>k\<close> (counting from 0) all succeed and the command at \<open>k\<close> fails, in the
  parser or in \<open>move\<close>, then \<open>exec\<close> raises that failure, the failing command changes
  nothing, and the recorder is left as the first \<open>k\<close> commands made it: exactly \<open>k\<close>
  nodes appended to the old history. When the argument yields no commands to run (a
  text that \<open>normalize_cmds\<close> rejects, or an argument of another type), \<open>exec\<close> raises
  that error and the recorder is unchanged. A list or tuple always yields its commands.
\<close>

theorem exec_not_transactional:
  "(exec_input U cmds = Inr cs \<and> k < length cs \<and>
    exec_loop U g strict r (take k cs) = (None, rk) \<and>
    exec_one U g strict rk (cs ! k) = (Some e, r'') \<longrightarrow>
      rec_exec U g r cmds strict = (Some e, rk) \<and> r'' = rk \<and>
      length (r_history rk) = length (r_history r) + k \<and>
      take (length (r_history r)) (r_history rk) = r_history r) \<and>
   (exec_input U cmds = Inl e0 \<longrightarrow>
      rec_exec U g r cmds strict = (Some e0, r) \<and>
      ((\<exists>toks. cmds = CmdText toks \<and> normalize_cmds U toks = Inl e0) \<or>
       (cmds = CmdOther \<and> e0 = TypeError))) \<and>
   exec_input U (CmdList l) = Inr (filter (\<lambda>cmd. cmd \<noteq> []) l)"
proof (intro conjI impI)
  assume a: "exec_input U cmds = Inr cs \<and> k < length cs \<and>
    exec_loop U g strict r (take k cs) = (None, rk) \<and>
    exec_one U g strict rk (cs ! k) = (Some e, r'')"
  then have "rec_exec U g r cmds strict = (Some e, rk) \<and> r'' = rk \<and>
         length (r_history rk) = length (r_history r) + k \<and>
         take (length (r_history r)) (r_history rk) = r_history r"
    using exec_commits_prefix [of U cmds cs k g strict r rk e r''] by blast
  then show "rec_exec U g r cmds strict = (Some e, rk)" and "r'' = rk"
    and "length (r_history rk) = length (r_history r) + k"
    and "take (length (r_history r)) (r_history rk) = r_history r"
    by simp_all
next
  assume a: "exec_input U cmds = Inl e0"
  then show "rec_exec U g r cmds strict = (Some e0, r)" by (simp add: rec_exec_def)
  from a show "(\<exists>toks. cmds = CmdText toks \<and> normalize_cmds U toks = Inl e0) \<or>
       (cmds = CmdOther \<and> e0 = TypeError)"
    by (rule exec_input_Inl)
next
  show "exec_input U (CmdList l) = Inr (filter (\<lambda>cmd. cmd \<noteq> []) l)"
    by (simp add: exec_input_def)
qed


section \<open>ChessRecorder: a small game\<close>

lemmas rec_eval = rec_move_def move_def setitem_def delitem_def check_piece_def VALID_PIECES_def
  ChessRecorder_init_def resolve_flag_def two_rooks_def

lemma rec0_eq:
  "rec0 = \<lparr>r_history = [\<lparr>node_state = [((0, 0), ustr ''R''), ((0, 9), ustr ''r'')],
                 node_trace = None, info_color = None, info_desc = None\<rparr>],
           r_rotate_flag = False, r_checkpoints = []\<rparr>"
  by (simp add: rec0_def rec_eval)

lemma rec1_move:
  "rec_move rec0 (0, 0) (0, 1) None =
     (None, \<lparr>r_history = [\<lparr>node_state = [((0, 0), ustr ''R''), ((0, 9), ustr ''r'')],
                 node_trace = None, info_color = None, info_desc = None\<rparr>,
               \<lparr>node_state = [((0, 9), ustr ''r''), ((0, 1), ustr ''R'')],
                 node_trace = Some ((0, 0), (0, 1)), info_color = Some Red, info_desc = None\<rparr>],
           r_rotate_flag = False, r_checkpoints = []\<rparr>)"
  by (simp add: rec0_eq rec_eval check_eval)

lemma rec1_eq:
  "rec1 = \<lparr>r_history = [\<lparr>node_state = [((0, 0), ustr ''R''), ((0, 9), ustr ''r'')],
                 node_trace = None, info_color = None, info_desc = None\<rparr>,
               \<lparr>node_state = [((0, 9), ustr ''r''), ((0, 1), ustr ''R'')],
                 node_trace = Some ((0, 0), (0, 1)), info_color = Some Red, info_desc = None\<rparr>],
           r_rotate_flag = False, r_checkpoints = []\<rparr>"
  by (simp add: rec1_def rec1_move)

lemma rec2_move:
  "rec_move rec1 (0, 9) (0, 8) None =
     (None, \<lparr>r_history = [\<lparr>node_state = [((0, 0), ustr ''R''), ((0, 9), ustr ''r'')],
                 node_trace = None, info_color = None, info_desc = None\<rparr>,
               \<lparr>node_state = [((0, 9), ustr ''r''), ((0, 1), ustr ''R'')],
                 node_trace = Some ((0, 0), (0, 1)), info_color = Some Red, info_desc = None\<rparr>,
               \<lparr>node_state = [((0, 1), ustr ''R''), ((0, 8), ustr ''r'')],
                 node_trace = Some ((0, 9), (0, 8)), info_color = Some Black, info_desc = None\<rparr>],
           r_rotate_flag = False, r_checkpoints = []\<rparr>)"
  by (simp add: rec1_eq rec_eval check_eval)

lemma rec2_eq:
  "rec2 = \<lparr>r_history = [\<lparr>node_state = [((0, 0), ustr ''R''), ((0, 9), ustr ''r'')],
                 node_trace = None, info_color = None, info_desc = None\<rparr>,
               \<lparr>node_state = [((0, 9), ustr ''r''), ((0, 1), ustr ''R'')],
                 node_trace = Some ((0, 0), (0, 1)), info_color = Some Red, info_desc = None\<rparr>,
               \<lparr>node_state = [((0, 1), ustr ''R''), ((0, 8), ustr ''r'')],
                 node_trace = Some ((0, 9), (0, 8)), info_color = Some Black, info_desc = None\<rparr>],
           r_rotate_flag = False, r_checkpoints = []\<rparr>"
  by (simp add: rec2_def rec2_move)

lemma reachable_rec1: "reachable U rec1"
proof -
  have "reachable U rec0" unfolding rec0_def by (rule reachable_init)
  moreover have "run_call U False (Move (0, 0) (0, 1) None) rec0 = Some (None, rec1)"
    by (simp add: rec1_def rec1_move)
  ultimately show ?thesis by (rule reachable_call)
qed

lemma reachable_rec2: "reachable U rec2"
proof -
  have "run_call U False (Move (0, 9) (0, 8) None) rec1 = Some (None, rec2)"
    by (simp add: rec2_def rec2_move)
  with reachable_rec1 show ?thesis by (rule reachable_call)
qed

theorem history_alternates_witness:
  "reachable ascii_digits rec2 \<and> length (r_history rec2) = 3 \<and> alternating (r_history rec2) \<and>
   getitem (node_state (last (r_history rec2))) (0, 8) = Inr (ustr ''r'') \<and>
   info_color (last (r_history rec2)) = Some Black \<and>
   (\<exists>e. rec_move rec2 (0, 8) (0, 7) None = (Some e, rec2))"
proof -
  have r: "reachable ascii_digits rec2" by (rule reachable_rec2)
  have g: "getitem (node_state (last (r_history rec2))) (0, 8) = Inr (ustr ''r'')"
    by (simp add: rec2_eq getitem_def check_key_def COLS_NUM_def ROWS_NUM_def)
  have c: "info_color (last (r_history rec2)) = Some (if isupper (ustr ''r'') then Red else Black)"
    by (simp add: rec2_eq isupper_def ustr_def is_upper_cp_def is_lower_cp_def)
  have l: "length (r_history rec2) = 3" by (simp add: rec2_eq)
  from history_alternates [OF r] g c have
    "alternating (r_history rec2)" and "\<exists>e. rec_move rec2 (0, 8) (0, 7) None = (Some e, rec2)"
    by blast+
  then show ?thesis using r g c l
    by (simp add: isupper_def ustr_def is_upper_cp_def is_lower_cp_def)
qed

theorem rollback_keeps_root_witness:
  "(\<exists>e. rollback rec2 (- 1) = (Some e, rec2)) \<and>
   length (r_history rec2) = 3 \<and>
   (\<exists>r1. rollback rec2 2 = (None, r1) \<and> length (r_history r1) = 1 \<and> rollback r1 5 = (None, r1)) \<and>
   rollback rec2 1 = (None, rec1) \<and>
   reachable ascii_digits rec2 \<and> 1 \<le> length (r_history rec2)"
proof -
  have l: "length (r_history rec2) = 3" by (simp add: rec2_eq)
  have ne: "r_history rec2 \<noteq> []" by (simp add: rec2_eq)
  have r: "reachable ascii_digits rec2" by (rule reachable_rec2)
  have t: "rec2\<lparr>r_history := take (max 1 (length (r_history rec2) - nat 1)) (r_history rec2)\<rparr> = rec1"
    by (simp add: rec2_eq rec1_eq)
  show ?thesis
    using rollback_keeps_root [of "- 1" rec2 ascii_digits] rollback_keeps_root [of 1 rec2 ascii_digits]
      l ne r t
    by simp
qed


theorem checkpoint_exact_witness:
  "r_history rec1 \<noteq> [] \<and>
   run_moves ascii_digits [(False, Move (0, 9) (0, 8) None)] (set_checkpoint rec1 (ustr ''a''))
     = Some (rec2\<lparr>r_checkpoints := [(ustr ''a'', 2)]\<rparr>) \<and>
   (\<exists>r3. rollback_to_checkpoint (rec2\<lparr>r_checkpoints := [(ustr ''a'', 2)]\<rparr>) (ustr ''a'')
            = Some (None, r3) \<and>
         r_history r3 = r_history rec1 \<and> length (r_history r3) = 2) \<and>
   map_of (r_checkpoints rec1) (ustr ''a'') = None \<and>
   rollback_to_checkpoint rec1 (ustr ''a'') = Some (Some KeyError, rec1)"
proof -
  have ne: "r_history rec1 \<noteq> []" by (simp add: rec1_eq)
  have s: "set_checkpoint rec1 (ustr ''a'') = rec1\<lparr>r_checkpoints := [(ustr ''a'', 2)]\<rparr>"
    by (simp add: set_checkpoint_def rec1_eq)
  have m: "rec_move (rec1\<lparr>r_checkpoints := [(ustr ''a'', 2)]\<rparr>) (0, 9) (0, 8) None
             = (None, rec2\<lparr>r_checkpoints := [(ustr ''a'', 2)]\<rparr>)"
    by (simp add: rec1_eq rec2_eq rec_eval check_eval)
  have run: "run_moves ascii_digits [(False, Move (0, 9) (0, 8) None)] (set_checkpoint rec1 (ustr ''a''))
     = Some (rec2\<lparr>r_checkpoints := [(ustr ''a'', 2)]\<rparr>)"
    by (simp add: s m)
  have n: "map_of (r_checkpoints rec1) (ustr ''a'') = None" by (simp add: rec1_eq)
  have l: "length (r_history rec1) = 2" by (simp add: rec1_eq)
  show ?thesis
    using checkpoint_exact [of rec1 ascii_digits "[(False, Move (0, 9) (0, 8) None)]" "ustr ''a''"
        "rec2\<lparr>r_checkpoints := [(ustr ''a'', 2)]\<rparr>"] ne run n l
    by auto
qed

lemma rook_advance_parse0:
  "parse_cmd ascii_digits False [((0, 0), ustr ''R''), ((0, 9), ustr ''r'')]
     [red_rook, zh9, zh_advance, zh1] (Some False) False = Inr ((0, 0), (0, 1))"
  by (simp add: parse_eval)

lemma rook_advance_parse1:
  "parse_cmd ascii_digits False [((0, 9), ustr ''r''), ((0, 1), ustr ''R'')]
     [red_rook, zh9, zh_advance, zh1] (Some False) False = Inr ((0, 1), (0, 2))"
  by (simp add: parse_eval)

lemma rec_up_eq:
  "rec_up = \<lparr>r_history = [\<lparr>node_state = [((0, 0), ustr ''R''), ((0, 9), ustr ''r'')],
                 node_trace = None, info_color = None, info_desc = None\<rparr>,
               \<lparr>node_state = [((0, 9), ustr ''r''), ((0, 1), ustr ''R'')],
                 node_trace = Some ((0, 0), (0, 1)), info_color = Some Red,
                 info_desc = Some rook_up\<rparr>],
           r_rotate_flag = False, r_checkpoints = []\<rparr>"
  by (simp add: rec_up_def rook_up_def rec0_eq rec_eval check_eval)

theorem exec_not_transactional_witness:
  "rec_exec ascii_digits False rec0 (CmdList [rook_up, [], rook_up]) False
     = (Some (ValueError ''The color of the current player is the same as the previous player.''),
        rec_up) \<and>
   length (r_history rec_up) = length (r_history rec0) + 1 \<and>
   exec_input ascii_digits (CmdText [rook_up, rook_up]) = Inl (ValueError ''Alternation error'') \<and>
   rec_exec ascii_digits False rec0 (CmdText [rook_up, rook_up]) False
     = (Some (ValueError ''Alternation error''), rec0)"
proof -
  have a: "exec_input ascii_digits (CmdList [rook_up, [], rook_up]) = Inr [rook_up, rook_up]"
    by (simp add: exec_input_def rook_up_def)
  have k: "(1::nat) < length [rook_up, rook_up]" by simp
  have m0: "rec_move rec0 (0, 0) (0, 1) (Some rook_up) = (None, rec_up)"
    by (simp add: rec_up_eq rook_up_def rec0_eq rec_eval check_eval)
  have b: "exec_loop ascii_digits False False rec0 (take 1 [rook_up, rook_up]) = (None, rec_up)"
    using m0 rook_advance_parse0 by (simp add: exec_one_def rec0_eq rook_up_def)
  have m1: "rec_move rec_up (0, 1) (0, 2) (Some rook_up)
      = (Some (ValueError ''The color of the current player is the same as the previous player.''),
         rec_up)"
    by (simp add: rec_up_eq rook_up_def rec_eval check_eval)
  have c: "exec_one ascii_digits False False rec_up ([rook_up, rook_up] ! 1)
      = (Some (ValueError ''The color of the current player is the same as the previous player.''),
         rec_up)"
    using m1 rook_advance_parse1 by (simp add: exec_one_def rec_up_eq rook_up_def)
  have n: "exec_input ascii_digits (CmdText [rook_up, rook_up])
      = Inl (ValueError ''Alternation error'')"
    by (simp add: exec_input_def normalize_cmds_def rook_up_def detect_color_def decimal_value_def
        ascii_digits_def)
  show ?thesis
    using exec_not_transactional [where U = ascii_digits and cmds = "CmdList [rook_up, [], rook_up]"
        and cs = "[rook_up, rook_up]" and k = 1 and g = False and strict = False and r = rec0
        and rk = rec_up and r'' = rec_up
        and e = "ValueError ''The color of the current player is the same as the previous player.''"]
      exec_not_transactional [where U = ascii_digits and cmds = "CmdText [rook_up, rook_up]"
        and e0 = "ValueError ''Alternation error''" and g = False and strict = False and r = rec0]
      a k b c n
    by simp
qed



section \<open>ChessStateIO: properties\<close>

lemma ChessState_init_empty: "ChessState_init g True None = []"
  by (simp add: ChessState_init_def rotate_pieces_def)

lemma load_items_fresh:
  assumes "\<forall>(p, v) \<in> set xs. literal_eval (str_pos p) = Inr (PTuple [PInt (fst p), PInt (snd p)]) \<and>
             check_key p = Inr () \<and> check_piece v = Inr ()"
    and "distinct (map fst (acc @ xs))"
  shows "load_items literal_eval (map (\<lambda>(p, v). (str_pos p, v)) xs) acc = Inr (acc @ xs)"
  using assms
proof (induction xs arbitrary: acc)
  case Nil
  then show ?case by simp
next
  case (Cons a xs)
  obtain p v where a: "a = (p, v)" by (cases a)
  have fresh: "p \<notin> fst ` set acc" using Cons.prems(2) by (auto simp: a)
  have d: "distinct (map fst ((acc @ [(p, v)]) @ xs))" using Cons.prems(2) by (simp add: a)
  have rest: "\<forall>(p, v) \<in> set xs. literal_eval (str_pos p) = Inr (PTuple [PInt (fst p), PInt (snd p)]) \<and>
             check_key p = Inr () \<and> check_piece v = Inr ()"
    using Cons.prems(1) by simp
  have here: "literal_eval (str_pos p) = Inr (PTuple [PInt (fst p), PInt (snd p)])"
    "check_key p = Inr ()" "check_piece v = Inr ()"
    using Cons.prems(1) by (simp_all add: a)
  have k: "check_key_val (PTuple [PInt (fst p), PInt (snd p)]) = Inr p"
    using here(2) by simp
  show ?case
    using Cons.IH [OF rest d] here k by (simp add: a update_fresh [OF fresh])
qed

lemma load_items_Inr:
  "load_items literal_eval data acc = Inr st \<Longrightarrow> (tok, piece) \<in> set data \<Longrightarrow>
   (\<exists>v p. literal_eval tok = Inr v \<and> check_key_val v = Inr p) \<and> check_piece piece = Inr ()"
proof (induction data arbitrary: acc)
  case Nil
  then show ?case by simp
next
  case (Cons a data)
  obtain k w where a: "a = (k, w)" by (cases a)
  from Cons.prems(1) obtain v p where
    h: "literal_eval k = Inr v" "check_key_val v = Inr p" "check_piece w = Inr ()"
    and r: "load_items literal_eval data (AList.update p w acc) = Inr st"
    by (auto simp: a split: sum.splits)
  show ?case
  proof (cases "(tok, piece) = (k, w)")
    case True
    then show ?thesis using h by auto
  next
    case False
    then have "(tok, piece) \<in> set data" using Cons.prems(2) by (auto simp: a)
    then show ?thesis by (rule Cons.IH [OF r])
  qed
qed

lemma check_key_val_int_pair: "check_key_val v = Inr p \<Longrightarrow> is_int_pair v"
  by (induction v rule: check_key_val.induct) (auto split: option.splits)

lemma str_in_single: "str_in [c] ys \<longleftrightarrow> c \<in> set ys"
  by (induction ys) auto

lemma not_Inr_is_Inl: "(\<forall>x. s \<noteq> Inr x) \<Longrightarrow> \<exists>e. s = Inl e"
  by (cases s) auto

text \<open>
  C8. \<open>_check_piece\<close> tests \<open>piece not in "RrHhEeAaCcPpKk"\<close>, which on strings is the
  substring test: the empty string, \<open>"Rr"\<close> and the whole alphabet string pass it,
  though none of them is one of the fourteen piece characters, and \<open>load_from_dict\<close>
  stores such a piece on the board instead of rejecting it.
\<close>

theorem load_accepts_piece_strings:
  "check_piece (ustr ''Rr'') = Inr () \<and> check_piece [] = Inr () \<and>
   check_piece VALID_PIECES = Inr () \<and>
   load_from_dict read_pair False [(ustr ''(0, 0)'', ustr ''Rr'')] = Inr [((0, 0), ustr ''Rr'')] \<and>
   load_from_dict read_pair False [(ustr ''(0, 0)'', [])] = Inr [((0, 0), [])]"
  by (simp add: load_from_dict_def ChessState_init_empty read_pair_def read_int_def read_nat_def
      ustr_def check_piece_def VALID_PIECES_def check_key_def COLS_NUM_def ROWS_NUM_def)

text \<open>
  What does hold of the two functions. Let the board be as the class keeps it (a
  dict, keys on the board, pieces accepted by \<open>_check_piece\<close>) and let \<open>literal_eval\<close>
  read each token that \<open>save_to_dict\<close> writes for it back as the pair of ints it came
  from, as Python's does. Then loading what was saved gives the very same board. And
  whatever \<open>literal_eval\<close> is, \<open>load_from_dict\<close> fails on data holding a token that
  does not evaluate to a tuple of two ints (bools counting as ints, as for
  \<open>isinstance\<close>), and on data holding a one-character piece that is not one of the
  fourteen letters.
\<close>

theorem save_load_roundtrip:
  "(valid_state st \<and>
    (\<forall>p \<in> fst ` set st. literal_eval (str_pos p) = Inr (PTuple [PInt (fst p), PInt (snd p)])) \<longrightarrow>
      load_from_dict literal_eval g (save_to_dict st) = Inr st) \<and>
   ((tok, piece) \<in> set data \<and> (\<forall>v. literal_eval tok = Inr v \<longrightarrow> \<not> is_int_pair v) \<longrightarrow>
      (\<exists>e. load_from_dict literal_eval g data = Inl e)) \<and>
   ((tok, [c]) \<in> set data \<and> c \<notin> set VALID_PIECES \<longrightarrow>
      (\<exists>e. load_from_dict literal_eval g data = Inl e))"
proof (intro conjI impI)
  assume a: "valid_state st \<and>
    (\<forall>p \<in> fst ` set st. literal_eval (str_pos p) = Inr (PTuple [PInt (fst p), PInt (snd p)]))"
  then have d: "distinct (map fst st)" by (simp add: valid_state_def)
  have inj: "inj_on str_pos (fst ` set st)"
  proof (rule inj_onI)
    fix p q assume "p \<in> fst ` set st" "q \<in> fst ` set st" "str_pos p = str_pos q"
    then have "Inr (PTuple [PInt (fst p), PInt (snd p)]) = (Inr (PTuple [PInt (fst q), PInt (snd q)]) :: error + pyval)"
      using a by metis
    then show "p = q" by (simp add: prod_eq_iff)
  qed
  have m: "map fst (map (\<lambda>(k, v). (str_pos k, v)) st) = map str_pos (map fst st)"
    by (induction st) auto
  have "distinct (map str_pos (map fst st))"
    using d inj by (simp add: distinct_map del: map_map)
  then have d': "distinct (map fst ([] @ map (\<lambda>(k, v). (str_pos k, v)) st))"
    unfolding append_Nil m .
  have s: "save_to_dict st = map (\<lambda>(k, v). (str_pos k, v)) st"
    using fold_update_fresh [OF d'] by (simp add: save_to_dict_def)
  have c: "\<forall>(p, v) \<in> set st. literal_eval (str_pos p) = Inr (PTuple [PInt (fst p), PInt (snd p)]) \<and>
             check_key p = Inr () \<and> check_piece v = Inr ()"
    using a by (force simp: valid_state_def list_all_iff)
  show "load_from_dict literal_eval g (save_to_dict st) = Inr st"
    using load_items_fresh [OF c, of "[]"] d
    by (simp add: load_from_dict_def ChessState_init_empty s)
next
  assume a: "(tok, piece) \<in> set data \<and> (\<forall>v. literal_eval tok = Inr v \<longrightarrow> \<not> is_int_pair v)"
  have "\<forall>x. load_from_dict literal_eval g data \<noteq> Inr x"
    using a load_items_Inr [of literal_eval data _ _ tok piece] check_key_val_int_pair
    unfolding load_from_dict_def by blast
  then show "\<exists>e. load_from_dict literal_eval g data = Inl e" by (rule not_Inr_is_Inl)
next
  assume a: "(tok, [c]) \<in> set data \<and> c \<notin> set VALID_PIECES"
  then have "check_piece [c] \<noteq> Inr ()" by (simp add: check_piece_def str_in_single)
  then have "\<forall>x. load_from_dict literal_eval g data \<noteq> Inr x"
    using a load_items_Inr [of literal_eval data _ _ tok "[c]"]
    unfolding load_from_dict_def by blast
  then show "\<exists>e. load_from_dict literal_eval g data = Inl e" by (rule not_Inr_is_Inl)
qed


theorem save_load_roundtrip_witness:
  "valid_state DEFAULT_STATE \<and>
   list_all (\<lambda>p. read_pair (str_pos p) = Inr (PTuple [PInt (fst p), PInt (snd p)]))
     (map fst DEFAULT_STATE) \<and>
   load_from_dict read_pair False (save_to_dict DEFAULT_STATE) = Inr DEFAULT_STATE \<and>
   (\<exists>e. load_from_dict read_pair False [(ustr ''(0, 0)'', ustr ''R''), (ustr ''[0, 1]'', ustr ''r'')] = Inl e) \<and>
   (\<exists>e. load_from_dict read_pair False [(ustr ''(0, 0)'', ustr ''X'')] = Inl e)"
proof -
  have v: "valid_state DEFAULT_STATE"
    by (simp add: valid_state_def DEFAULT_STATE_def check_key_def COLS_NUM_def ROWS_NUM_def
        check_piece_def VALID_PIECES_def ustr_def)
  have c: "\<forall>p \<in> fst ` set DEFAULT_STATE.
             read_pair (str_pos p) = Inr (PTuple [PInt (fst p), PInt (snd p)])"
    by (simp add: DEFAULT_STATE_def str_pos_def str_int_def str_nat.simps ustr_def read_pair_def
        read_int_def read_nat_def)
  have b: "\<forall>v. read_pair (ustr ''[0, 1]'') = Inr v \<longrightarrow> \<not> is_int_pair v"
    by (simp add: read_pair_def ustr_def)
  have x: "of_char CHR ''X'' \<notin> set VALID_PIECES"
    by (simp add: VALID_PIECES_def ustr_def)
  have l: "list_all (\<lambda>p. read_pair (str_pos p) = Inr (PTuple [PInt (fst p), PInt (snd p)]))
     (map fst DEFAULT_STATE)"
    using c by (simp add: list_all_iff)
  show ?thesis
    using v c l
      save_load_roundtrip [where st = DEFAULT_STATE and literal_eval = read_pair and g = False
        and tok = "ustr ''[0, 1]''" and piece = "ustr ''r''"
        and data = "[(ustr ''(0, 0)'', ustr ''R''), (ustr ''[0, 1]'', ustr ''r'')]"] b
      save_load_roundtrip [where st = DEFAULT_STATE and literal_eval = read_pair and g = False
        and tok = "ustr ''(0, 0)''" and c = "of_char CHR ''X''"
        and data = "[(ustr ''(0, 0)'', ustr ''X'')]"] x
    by (simp add: ustr_def)
qed


end
